theory Spec2Isabelle
  imports Main "HOL-Library.AList" "HOL-Library.Multiset"
begin

section \<open>JavaScript values, documents and operations\<close>

text \<open>
  A document is a plain JavaScript object. Its own properties are kept in insertion
  order as an association list; \<open>map_of\<close> reads a property, \<open>AList.update\<close> assigns
  one (an existing key keeps its place, a new key is appended), which is what
  property assignment and \<open>Map.prototype.set\<close> do.
  Timestamps are integers (milliseconds); \<open>NaN\<close> is \<open>None\<close> where a number may be
  \<open>NaN\<close>.
\<close>

datatype jsval = JUndefined | JNull | JBool bool | JNum int | JStr string

type_synonym jsobj = "(string \<times> jsval) list"

text \<open>Document ids have the TypeScript type \<open>string | number\<close>.\<close>

datatype docid = IdNum int | IdStr string

definition idOf :: "jsobj \<Rightarrow> docid option" where
  "idOf d = (case map_of d ''id'' of
               Some (JNum n) \<Rightarrow> Some (IdNum n)
             | Some (JStr s) \<Rightarrow> Some (IdStr s)
             | _ \<Rightarrow> None)"

text \<open>Truthiness of the value read by \<open>obj[key]\<close> (an absent key reads \<open>undefined\<close>).\<close>

fun truthy :: "jsval option \<Rightarrow> bool" where
  "truthy None = False"
| "truthy (Some JUndefined) = False"
| "truthy (Some JNull) = False"
| "truthy (Some (JBool b)) = b"
| "truthy (Some (JNum n)) = (n \<noteq> 0)"
| "truthy (Some (JStr s)) = (s \<noteq> [])"

text \<open>
  Object spread \<open>{ ...a, ...b }\<close>: the properties of \<open>a\<close>, then each own property of
  \<open>b\<close> assigned in order. Spreading \<open>null\<close> adds nothing.
\<close>

definition assignAll :: "jsobj \<Rightarrow> jsobj \<Rightarrow> jsobj" where
  "assignAll target source = fold (\<lambda>(k, v). AList.update k v) source target"

definition spread :: "jsobj \<Rightarrow> jsobj option \<Rightarrow> jsobj" where
  "spread a b = (case b of None \<Rightarrow> a | Some updates \<Rightarrow> assignAll a updates)"

datatype OperationType = Create | Update | Delete

record operation =
  op_id :: string
  op_type :: OperationType
  collection :: string
  docId :: docid
  payload :: "jsobj option"
  timestamp :: int

datatype error = StorageError | NotFound | NetworkFailure | StrategyError | RangeError

datatype outcome = Returned | Threw error

datatype 'a promise = Resolved 'a | Rejected

section \<open>StateManager\<close>

text \<open>
  \<open>state\<close> maps a collection name to a JavaScript \<open>Map\<close> from id to document (kept in
  insertion order), \<open>subscriptions\<close> maps it to the subscribed callbacks, named by
  numbers. \<open>delivered\<close> records every callback invocation made by
  \<open>notifySubscribers\<close>: the callback and the array it was given.
\<close>

record stateManager =
  state :: "string \<rightharpoonup> (docid \<times> jsobj) list"
  subscriptions :: "string \<rightharpoonup> nat list"
  delivered :: "(nat \<times> jsobj list) list"

definition ensureCollectionExists :: "stateManager \<Rightarrow> string \<Rightarrow> stateManager" where
  "ensureCollectionExists sm collectionName =
     (let sm1 = (if state sm collectionName = None
                 then sm\<lparr>state := (state sm)(collectionName \<mapsto> [])\<rparr> else sm)
      in if subscriptions sm1 collectionName = None
         then sm1\<lparr>subscriptions := (subscriptions sm1)(collectionName \<mapsto> [])\<rparr> else sm1)"

definition notifySubscribers :: "stateManager \<Rightarrow> string \<Rightarrow> stateManager" where
  "notifySubscribers sm collectionName =
     (case state sm collectionName of
        None \<Rightarrow> sm
      | Some collectionState \<Rightarrow>
          (case subscriptions sm collectionName of
             None \<Rightarrow> sm
           | Some subscribers \<Rightarrow>
               if subscribers = [] then sm
               else sm\<lparr>delivered := delivered sm @
                          map (\<lambda>callback. (callback, map snd collectionState)) subscribers\<rparr>))"

text \<open>
  \<open>new Map(data.map(doc => [doc.id, doc]))\<close>: the documents are entered in order, a later
  one replacing an earlier one of the same id. The documents have a type with an
  \<open>id\<close>; one without a string or number id is left out here.
\<close>

definition setCollectionState :: "stateManager \<Rightarrow> string \<Rightarrow> jsobj list \<Rightarrow> stateManager" where
  "setCollectionState sm collectionName data =
     (let sm1 = ensureCollectionExists sm collectionName;
          collectionState =
            fold (\<lambda>doc m. case idOf doc of None \<Rightarrow> m | Some i \<Rightarrow> AList.update i doc m) data []
      in notifySubscribers (sm1\<lparr>state := (state sm1)(collectionName \<mapsto> collectionState)\<rparr>)
           collectionName)"

definition addDoc :: "stateManager \<Rightarrow> string \<Rightarrow> docid \<Rightarrow> jsobj \<Rightarrow> stateManager" where
  "addDoc sm collectionName i doc =
     (let sm1 = ensureCollectionExists sm collectionName in
      case state sm1 collectionName of
        None \<Rightarrow> sm1
      | Some collectionState \<Rightarrow>
          notifySubscribers
            (sm1\<lparr>state := (state sm1)(collectionName \<mapsto> AList.update i doc collectionState)\<rparr>)
            collectionName)"

definition updateDoc :: "stateManager \<Rightarrow> string \<Rightarrow> docid \<Rightarrow> jsobj option \<Rightarrow> stateManager" where
  "updateDoc sm collectionName i updates =
     (let sm1 = ensureCollectionExists sm collectionName in
      case state sm1 collectionName of
        None \<Rightarrow> sm1
      | Some collectionState \<Rightarrow>
          (case map_of collectionState i of
             None \<Rightarrow> sm1
           | Some existingDoc \<Rightarrow>
               notifySubscribers
                 (sm1\<lparr>state := (state sm1)(collectionName \<mapsto>
                          AList.update i (spread existingDoc updates) collectionState)\<rparr>)
                 collectionName))"

definition deleteDoc :: "stateManager \<Rightarrow> string \<Rightarrow> docid \<Rightarrow> stateManager" where
  "deleteDoc sm collectionName i =
     (let sm1 = ensureCollectionExists sm collectionName in
      case state sm1 collectionName of
        None \<Rightarrow> sm1
      | Some collectionState \<Rightarrow>
          (if map_of collectionState i \<noteq> None
           then notifySubscribers
                  (sm1\<lparr>state := (state sm1)(collectionName \<mapsto> AList.delete i collectionState)\<rparr>)
                  collectionName
           else sm1))"

definition getDoc :: "stateManager \<Rightarrow> string \<Rightarrow> docid \<Rightarrow> jsobj option" where
  "getDoc sm collectionName i =
     (case state sm collectionName of
        None \<Rightarrow> None
      | Some collectionState \<Rightarrow> map_of collectionState i)"

definition getCollectionState :: "stateManager \<Rightarrow> string \<Rightarrow> jsobj list" where
  "getCollectionState sm collectionName =
     (case state sm collectionName of
        None \<Rightarrow> []
      | Some collectionState \<Rightarrow> map snd collectionState)"

text \<open>The callbacks subscribed to a collection (none when the collection is unknown).\<close>

definition subscribersOf :: "stateManager \<Rightarrow> string \<Rightarrow> nat list" where
  "subscribersOf sm collectionName =
     (case subscriptions sm collectionName of None \<Rightarrow> [] | Some subscribers \<Rightarrow> subscribers)"

section \<open>ConflictResolver\<close>

record conflict =
  localOperation :: operation
  remoteState :: jsobj

datatype resolution = Local | Remote | Merged jsobj

text \<open>
  \<open>new Date(v).getTime()\<close> for the value read from the remote document. A missing
  field or \<open>undefined\<close> gives \<open>NaN\<close>, \<open>null\<close> gives \<open>0\<close>, a number is its own time
  value when it is in the range of \<open>Date\<close>, and a string goes through the
  engine's date parser, which is a parameter here (\<open>None\<close> for an unparsable string).
\<close>

definition dateGetTime :: "(string \<Rightarrow> int option) \<Rightarrow> jsval option \<Rightarrow> int option" where
  "dateGetTime dateParse v =
     (case v of
        None \<Rightarrow> None
      | Some JUndefined \<Rightarrow> None
      | Some JNull \<Rightarrow> Some 0
      | Some (JBool b) \<Rightarrow> Some (if b then 1 else 0)
      | Some (JNum n) \<Rightarrow> (if \<bar>n\<bar> \<le> 8640000000000000 then Some n else None)
      | Some (JStr s) \<Rightarrow> dateParse s)"

text \<open>\<open>!remoteTimestamp\<close> holds for \<open>NaN\<close> and for \<open>0\<close>.\<close>

definition lastWriteWins :: "(string \<Rightarrow> int option) \<Rightarrow> string \<Rightarrow> conflict \<Rightarrow> resolution" where
  "lastWriteWins dateParse timestampField c =
     (let localTimestamp = timestamp (localOperation c);
          remoteTimestamp = dateGetTime dateParse (map_of (remoteState c) timestampField)
      in case remoteTimestamp of
           None \<Rightarrow> Remote
         | Some r \<Rightarrow> if r = 0 then Remote
                     else if localTimestamp > r then Local else Remote)"

definition serverWins :: "conflict \<Rightarrow> resolution" where
  "serverWins c = Remote"

definition clientWins :: "conflict \<Rightarrow> resolution" where
  "clientWins c = Local"

text \<open>
  The object that \<open>fieldLevelMerge\<close> builds: its own properties and whether it still
  has the prototype \<open>Object.prototype\<close>. \<open>{ ...remoteState }\<close> makes an object with
  that prototype, through which the names of \<open>objectPrototypeKeys\<close> are read when the
  object has no own property of the name; what is read there is a function or an
  object, so it is truthy. An assignment to \<open>__proto__\<close> that finds no own property
  runs the inherited setter, which makes the prototype \<open>null\<close> for the value \<open>null\<close>
  and ignores any other primitive value.
\<close>

definition objectPrototypeKeys :: "string list" where
  "objectPrototypeKeys =
     [''constructor'', ''__defineGetter__'', ''__defineSetter__'', ''hasOwnProperty'',
      ''__lookupGetter__'', ''__lookupSetter__'', ''isPrototypeOf'', ''propertyIsEnumerable'',
      ''toString'', ''valueOf'', ''__proto__'', ''toLocaleString'']"

definition setProperty :: "string \<Rightarrow> jsval \<Rightarrow> jsobj \<times> bool \<Rightarrow> jsobj \<times> bool" where
  "setProperty k v obj =
     (case obj of (own, hasPrototype) \<Rightarrow>
        if k = ''__proto__'' \<and> hasPrototype \<and> map_of own k = None
        then (if v = JNull then (own, False) else (own, hasPrototype))
        else (AList.update k v own, hasPrototype))"

definition getTruthy :: "jsobj \<times> bool \<Rightarrow> string \<Rightarrow> bool" where
  "getTruthy obj k =
     (case obj of (own, hasPrototype) \<Rightarrow>
        (case map_of own k of
           Some v \<Rightarrow> truthy (Some v)
         | None \<Rightarrow> hasPrototype \<and> k \<in> set objectPrototypeKeys))"

text \<open>
  \<open>fieldLevelMerge\<close> always returns a document. \<open>now\<close> is the value of
  \<open>new Date().toISOString()\<close> at the moment of the call.
\<close>

definition fieldLevelMerge :: "string \<Rightarrow> string \<Rightarrow> conflict \<Rightarrow> resolution" where
  "fieldLevelMerge now timestampField c =
     (if op_type (localOperation c) \<noteq> Update then Merged (remoteState c)
      else
        (case payload (localOperation c) of
           None \<Rightarrow> Merged (remoteState c)
         | Some localChanges \<Rightarrow>
             (let mergedDoc = fold (\<lambda>(k, v). setProperty k v) localChanges (remoteState c, True) in
              if getTruthy mergedDoc timestampField
              then Merged (fst (setProperty timestampField (JStr now) mergedDoc))
              else Merged (fst mergedDoc))))"

section \<open>PersistenceAdapter\<close>

text \<open>
  The storage behind the \<open>PersistenceAdapter\<close> interface, as \<open>IndexedDBAdapter\<close>
  implements it: named object stores with key path \<open>id\<close>, each a list of rows in the
  order a scan returns them. \<open>tables\<close> holds the stores of documents (the
  application's collections and the store of sync metadata).
  The store named \<open>SYNC_QUEUE_STORE_NAME\<close> holds the operations, keyed by the operation
  id (\<open>queueStore\<close>, \<open>None\<close> when the store does not exist), and the documents that
  a call naming that store puts there (\<open>queueDocuments\<close>). A key has one row, so a
  write of a row of one kind removes the row of the other kind under the same key,
  and a deletion removes either.
  A call on a store that does not exist rejects, and so does \<open>set\<close> with a value
  from which no key can be read (\<open>null\<close>, or a document without a string or
  number \<open>id\<close>).
\<close>

definition SYNC_QUEUE_STORE_NAME :: string where
  "SYNC_QUEUE_STORE_NAME = ''_syncdbg_sync_queue''"

record persistenceAdapter =
  tables :: "string \<rightharpoonup> (docid \<times> jsobj) list"
  queueStore :: "(string \<times> operation) list option"
  queueDocuments :: "(docid \<times> jsobj) list"

text \<open>The rows of a store that are documents, \<open>None\<close> when the store does not exist.\<close>

definition documentRows :: "persistenceAdapter \<Rightarrow> string \<Rightarrow> (docid \<times> jsobj) list option" where
  "documentRows p storeName =
     (if storeName = SYNC_QUEUE_STORE_NAME
      then (case queueStore p of None \<Rightarrow> None | Some operations \<Rightarrow> Some (queueDocuments p))
      else tables p storeName)"

text \<open>The operations of the queue store without the one under a key.\<close>

definition withoutKey :: "docid \<Rightarrow> (string \<times> operation) list \<Rightarrow> (string \<times> operation) list" where
  "withoutKey key operations =
     (case key of IdStr s \<Rightarrow> AList.delete s operations | IdNum n \<Rightarrow> operations)"

definition persistence_get ::
    "persistenceAdapter \<Rightarrow> string \<Rightarrow> docid \<Rightarrow> error + jsobj option" where
  "persistence_get p storeName key =
     (case documentRows p storeName of
        None \<Rightarrow> Inl StorageError
      | Some rows \<Rightarrow> Inr (map_of rows key))"

definition persistence_getAll :: "persistenceAdapter \<Rightarrow> string \<Rightarrow> error + jsobj list" where
  "persistence_getAll p storeName =
     (case documentRows p storeName of
        None \<Rightarrow> Inl StorageError
      | Some rows \<Rightarrow> Inr (map snd rows))"

definition persistence_set ::
    "persistenceAdapter \<Rightarrow> string \<Rightarrow> jsobj option \<Rightarrow> error + persistenceAdapter" where
  "persistence_set p storeName v =
     (case documentRows p storeName of
        None \<Rightarrow> Inl StorageError
      | Some rows \<Rightarrow>
          (case v of
             None \<Rightarrow> Inl StorageError
           | Some doc \<Rightarrow>
               (case idOf doc of
                  None \<Rightarrow> Inl StorageError
                | Some key \<Rightarrow>
                    if storeName = SYNC_QUEUE_STORE_NAME
                    then Inr (p\<lparr>queueDocuments := AList.update key doc rows,
                                queueStore := map_option (withoutKey key) (queueStore p)\<rparr>)
                    else Inr (p\<lparr>tables := (tables p)(storeName \<mapsto> AList.update key doc rows)\<rparr>))))"

definition persistence_delete ::
    "persistenceAdapter \<Rightarrow> string \<Rightarrow> docid \<Rightarrow> error + persistenceAdapter" where
  "persistence_delete p storeName key =
     (case documentRows p storeName of
        None \<Rightarrow> Inl StorageError
      | Some rows \<Rightarrow>
          if storeName = SYNC_QUEUE_STORE_NAME
          then Inr (p\<lparr>queueDocuments := AList.delete key rows,
                      queueStore := map_option (withoutKey key) (queueStore p)\<rparr>)
          else Inr (p\<lparr>tables := (tables p)(storeName \<mapsto> AList.delete key rows)\<rparr>))"

section \<open>SyncQueue\<close>

text \<open>
  \<open>SyncQueue\<close> reads and writes the store \<open>SYNC_QUEUE_STORE_NAME\<close> at the type
  \<open>Operation\<close>: its reads return the rows that are operations.
\<close>

text \<open>
  \<open>Array.prototype.sort\<close> with a comparator: ECMAScript requires a stable sort,
  which puts \<open>a\<close> before \<open>b\<close> when \<open>compareFn(a, b) < 0\<close> and keeps equal
  elements in their order. Insertion from the right is such a sort.
\<close>

fun insertBy :: "('a \<Rightarrow> 'a \<Rightarrow> int) \<Rightarrow> 'a \<Rightarrow> 'a list \<Rightarrow> 'a list" where
  "insertBy compareFn x [] = [x]"
| "insertBy compareFn x (y # ys) =
     (if compareFn x y \<le> 0 then x # y # ys else y # insertBy compareFn x ys)"

definition arraySort :: "('a \<Rightarrow> 'a \<Rightarrow> int) \<Rightarrow> 'a list \<Rightarrow> 'a list" where
  "arraySort compareFn xs = foldr (insertBy compareFn) xs []"

definition enqueue :: "persistenceAdapter \<Rightarrow> operation \<Rightarrow> error + persistenceAdapter" where
  "enqueue p operation =
     (case queueStore p of
        None \<Rightarrow> Inl StorageError
      | Some rows \<Rightarrow>
          Inr (p\<lparr>queueStore := Some (AList.update (op_id operation) operation rows),
                 queueDocuments := AList.delete (IdStr (op_id operation)) (queueDocuments p)\<rparr>))"

definition dequeue :: "persistenceAdapter \<Rightarrow> string \<Rightarrow> error + persistenceAdapter" where
  "dequeue p operationId =
     (case queueStore p of
        None \<Rightarrow> Inl StorageError
      | Some rows \<Rightarrow>
          Inr (p\<lparr>queueStore := Some (AList.delete operationId rows),
                 queueDocuments := AList.delete (IdStr operationId) (queueDocuments p)\<rparr>))"

definition queue_get :: "persistenceAdapter \<Rightarrow> string \<Rightarrow> error + operation option" where
  "queue_get p operationId =
     (case queueStore p of
        None \<Rightarrow> Inl StorageError
      | Some rows \<Rightarrow> Inr (map_of rows operationId))"

definition getAll :: "persistenceAdapter \<Rightarrow> error + operation list" where
  "getAll p =
     (case queueStore p of
        None \<Rightarrow> Inl StorageError
      | Some rows \<Rightarrow> Inr (arraySort (\<lambda>a b. timestamp a - timestamp b) (map snd rows)))"

section \<open>Collection\<close>

text \<open>
  \<open>update\<close> of the collection \<open>name\<close>, on the state manager and the storage it
  shares with the rest of the client. \<open>newOpId\<close> is the value of \<open>uuidv4()\<close> and
  \<open>now\<close> the value of \<open>Date.now()\<close>. A throw leaves the effects made before it.
\<close>

definition collection_update ::
    "string \<Rightarrow> docid \<Rightarrow> jsobj \<Rightarrow> string \<Rightarrow> int \<Rightarrow> stateManager \<times> persistenceAdapter \<Rightarrow>
     outcome \<times> stateManager \<times> persistenceAdapter" where
  "collection_update name i updates newOpId now w =
     (let sm1 = updateDoc (fst w) name i (Some updates) in
      case getDoc sm1 name i of
        None \<Rightarrow> (Threw NotFound, sm1, snd w)
      | Some updatedDoc \<Rightarrow>
          (case persistence_set (snd w) name (Some updatedDoc) of
             Inl e \<Rightarrow> (Threw e, sm1, snd w)
           | Inr p1 \<Rightarrow>
               (case enqueue p1 \<lparr>op_id = newOpId, op_type = Update, collection = name,
                                  docId = i, payload = Some updates, timestamp = now\<rparr> of
                  Inl e \<Rightarrow> (Threw e, sm1, p1)
                | Inr p2 \<Rightarrow> (Returned, sm1, p2))))"

text \<open>
  \<open>loadInitialData\<close>, which the constructor of a collection runs: the state of the
  collection becomes what storage holds, or empty when storage rejects.
\<close>

definition loadInitialData ::
    "string \<Rightarrow> stateManager \<times> persistenceAdapter \<Rightarrow> stateManager" where
  "loadInitialData name w =
     (case persistence_getAll (snd w) name of
        Inr data \<Rightarrow> setCollectionState (fst w) name data
      | Inl e \<Rightarrow> setCollectionState (fst w) name [])"

section \<open>NetworkDetector\<close>

text \<open>
  A listener registered by \<open>SyncEngine.start\<close> is \<open>EngineListener\<close> with the number
  of that registration; any other subscriber of the connectivity signal is
  \<open>OtherListener\<close>.
\<close>

datatype listener = EngineListener nat | OtherListener nat

record networkDetector =
  isOnline :: bool
  listeners :: "listener list"

definition isConnected :: "networkDetector \<Rightarrow> bool" where
  "isConnected n = isOnline n"

section \<open>SyncEngine\<close>

record failure =
  operationId :: string
  errorRemoteState :: "jsobj option"

record pushResult =
  successful :: "string list"
  failed :: "failure list"

record pullResult =
  changes :: "operation list"
  pull_timestamp :: int

text \<open>
  The remote collaborator: what \<open>push\<close> and \<open>pull\<close> answer to a request.
  \<open>errorRemoteState\<close> is \<open>error?.remoteState\<close>, \<open>None\<close> when it is missing.
\<close>

record apiAdapter =
  push :: "operation list \<Rightarrow> pushResult promise"
  pull :: "int option \<Rightarrow> pullResult promise"

datatype apiCall = PushCall "operation list" | PullCall "int option"

text \<open>
  The engine with the objects it holds references to. \<open>unsubscribeNetwork\<close> is the
  listener that the closure returned by \<open>network.subscribe\<close> removes (\<open>None\<close> for the
  initial no-op closure). \<open>apiCalls\<close> records the calls made to the remote
  collaborator.
\<close>

record syncEngine =
  persistence :: persistenceAdapter
  network :: networkDetector
  stateManager :: stateManager
  isSyncing :: bool
  lastPulledAt :: "int option"
  unsubscribeNetwork :: "nat option"
  apiCalls :: "apiCall list"

definition metaStore :: string where
  "metaStore = ''_syncdbg_meta''"

text \<open>A \<open>for ... of\<close> loop with an awaited body: the first throw ends it.\<close>

fun forEach :: "('a \<Rightarrow> 's \<Rightarrow> outcome \<times> 's) \<Rightarrow> 'a list \<Rightarrow> 's \<Rightarrow> outcome \<times> 's" where
  "forEach body [] s = (Returned, s)"
| "forEach body (x # xs) s =
     (case body x s of
        (Threw e, s1) \<Rightarrow> (Threw e, s1)
      | (Returned, s1) \<Rightarrow> forEach body xs s1)"

definition stop :: "syncEngine \<Rightarrow> syncEngine" where
  "stop e =
     (case unsubscribeNetwork e of
        None \<Rightarrow> e
      | Some l \<Rightarrow>
          e\<lparr>network := (network e)\<lparr>listeners := removeAll (EngineListener l) (listeners (network e))\<rparr>\<rparr>)"

definition dequeueOp :: "string \<Rightarrow> syncEngine \<Rightarrow> outcome \<times> syncEngine" where
  "dequeueOp opId e =
     (case dequeue (persistence e) opId of
        Inl err \<Rightarrow> (Threw err, e)
      | Inr p \<Rightarrow> (Returned, e\<lparr>persistence := p\<rparr>))"

text \<open>
  \<open>finalDoc.id\<close> is the key passed to \<open>updateDoc\<close>; when the final document has no
  string or number \<open>id\<close> the lookup in the collection finds nothing, so only
  \<open>ensureCollectionExists\<close> has an effect.
\<close>

definition handleFailedOperation ::
    "(conflict \<Rightarrow> resolution promise) \<Rightarrow> failure \<Rightarrow> syncEngine \<Rightarrow> outcome \<times> syncEngine" where
  "handleFailedOperation conflictStrategy f e =
     (case queue_get (persistence e) (operationId f) of
        Inl err \<Rightarrow> (Threw err, e)
      | Inr None \<Rightarrow> (Returned, e)
      | Inr (Some localOp) \<Rightarrow>
          (case errorRemoteState f of
             None \<Rightarrow> (Returned, e)
           | Some remote \<Rightarrow>
               if idOf remote \<noteq> Some (docId localOp) then (Returned, e)
               else
                 (case conflictStrategy \<lparr>localOperation = localOp, remoteState = remote\<rparr> of
                    Rejected \<Rightarrow> (Threw StrategyError, e)
                  | Resolved Local \<Rightarrow> (Returned, e)
                  | Resolved res \<Rightarrow>
                      (let finalDoc = (case res of Merged d \<Rightarrow> d | _ \<Rightarrow> remote);
                           e1 = e\<lparr>stateManager :=
                                  (case idOf finalDoc of
                                     None \<Rightarrow> ensureCollectionExists (stateManager e) (collection localOp)
                                   | Some i \<Rightarrow> updateDoc (stateManager e) (collection localOp) i
                                                (Some finalDoc))\<rparr>
                       in case persistence_set (persistence e1) (collection localOp) (Some finalDoc) of
                            Inl err \<Rightarrow> (Threw err, e1)
                          | Inr p \<Rightarrow> dequeueOp (operationId f) (e1\<lparr>persistence := p\<rparr>)))))"

text \<open>The body of the \<open>try\<close> block of \<open>pushChanges\<close>, for a non-empty batch.\<close>

definition pushChangesTry ::
    "apiAdapter \<Rightarrow> (conflict \<Rightarrow> resolution promise) \<Rightarrow> operation list \<Rightarrow> syncEngine \<Rightarrow>
     outcome \<times> syncEngine" where
  "pushChangesTry api conflictStrategy operations e =
     (let e1 = e\<lparr>apiCalls := apiCalls e @ [PushCall operations]\<rparr> in
      case push api operations of
        Rejected \<Rightarrow> (Threw NetworkFailure, e1)
      | Resolved r \<Rightarrow>
          (case forEach dequeueOp (successful r) e1 of
             (Threw err, e2) \<Rightarrow> (Threw err, e2)
           | (Returned, e2) \<Rightarrow>
               if failed r \<noteq> []
               then forEach (handleFailedOperation conflictStrategy) (failed r) e2
               else (Returned, e2)))"

text \<open>
  \<open>syncQueue.getAll()\<close> is awaited before the \<open>try\<close>, so its rejection leaves
  \<open>pushChanges\<close>; whatever the \<open>try\<close> block throws is caught and logged.
\<close>

definition pushChanges ::
    "apiAdapter \<Rightarrow> (conflict \<Rightarrow> resolution promise) \<Rightarrow> syncEngine \<Rightarrow> outcome \<times> syncEngine" where
  "pushChanges api conflictStrategy e =
     (case getAll (persistence e) of
        Inl err \<Rightarrow> (Threw err, e)
      | Inr operations \<Rightarrow>
          if operations = [] then (Returned, e)
          else (Returned, snd (pushChangesTry api conflictStrategy operations e)))"

definition saveLastPulledAt :: "syncEngine \<Rightarrow> outcome \<times> syncEngine" where
  "saveLastPulledAt e =
     (case persistence_set (persistence e) metaStore
             (Some [(''id'', JStr ''lastPulledAt''),
                    (''value'', (case lastPulledAt e of None \<Rightarrow> JNull | Some t \<Rightarrow> JNum t))]) of
        Inl err \<Rightarrow> (Threw err, e)
      | Inr p \<Rightarrow> (Returned, e\<lparr>persistence := p\<rparr>))"

text \<open>The persisted cursor: the \<open>value\<close> of the record that \<open>loadLastPulledAt\<close> reads.\<close>

definition persistedCursor :: "persistenceAdapter \<Rightarrow> jsval option" where
  "persistedCursor p =
     (case persistence_get p metaStore (IdStr ''lastPulledAt'') of
        Inr (Some meta) \<Rightarrow> map_of meta ''value''
      | _ \<Rightarrow> None)"

text \<open>The body of the loop of \<open>pullChanges\<close>.\<close>

definition applyChange :: "operation \<Rightarrow> syncEngine \<Rightarrow> outcome \<times> syncEngine" where
  "applyChange op e =
     (case op_type op of
        Delete \<Rightarrow>
          (let e1 = e\<lparr>stateManager := deleteDoc (stateManager e) (collection op) (docId op)\<rparr> in
           case persistence_delete (persistence e1) (collection op) (docId op) of
             Inl err \<Rightarrow> (Threw err, e1)
           | Inr p \<Rightarrow> (Returned, e1\<lparr>persistence := p\<rparr>))
      | _ \<Rightarrow>
          (let e1 = e\<lparr>stateManager :=
                       updateDoc (stateManager e) (collection op) (docId op) (payload op)\<rparr> in
           case persistence_set (persistence e1) (collection op) (payload op) of
             Inl err \<Rightarrow> (Threw err, e1)
           | Inr p \<Rightarrow> (Returned, e1\<lparr>persistence := p\<rparr>)))"

text \<open>The body of the \<open>try\<close> block of \<open>pullChanges\<close>.\<close>

definition pullChangesTry :: "apiAdapter \<Rightarrow> syncEngine \<Rightarrow> outcome \<times> syncEngine" where
  "pullChangesTry api e =
     (let e1 = e\<lparr>apiCalls := apiCalls e @ [PullCall (lastPulledAt e)]\<rparr> in
      case pull api (lastPulledAt e) of
        Rejected \<Rightarrow> (Threw NetworkFailure, e1)
      | Resolved r \<Rightarrow>
          if changes r = [] then (Returned, e1)
          else
            (case forEach applyChange (changes r) e1 of
               (Threw err, e2) \<Rightarrow> (Threw err, e2)
             | (Returned, e2) \<Rightarrow> saveLastPulledAt (e2\<lparr>lastPulledAt := Some (pull_timestamp r)\<rparr>)))"

text \<open>
  Before its \<open>try\<close> block \<open>pullChanges\<close> logs the cursor, for a truthy cursor as
  \<open>new Date(this.lastPulledAt).toISOString()\<close>, which throws a \<open>RangeError\<close> when
  the cursor is not a time value of \<open>Date\<close>. What the \<open>try\<close> block throws is
  caught and logged.
\<close>

definition logLineThrows :: "int option \<Rightarrow> bool" where
  "logLineThrows cursor =
     (case cursor of
        None \<Rightarrow> False
      | Some t \<Rightarrow> t \<noteq> 0 \<and> \<bar>t\<bar> > 8640000000000000)"

definition pullChanges :: "apiAdapter \<Rightarrow> syncEngine \<Rightarrow> outcome \<times> syncEngine" where
  "pullChanges api e =
     (if logLineThrows (lastPulledAt e) then (Threw RangeError, e)
      else (Returned, snd (pullChangesTry api e)))"

definition triggerSync ::
    "apiAdapter \<Rightarrow> (conflict \<Rightarrow> resolution promise) \<Rightarrow> syncEngine \<Rightarrow> outcome \<times> syncEngine" where
  "triggerSync api conflictStrategy e =
     (if isSyncing e \<or> \<not> isConnected (network e) then (Returned, e)
      else
        (let e1 = e\<lparr>isSyncing := True\<rparr>;
             e3 = (case pushChanges api conflictStrategy e1 of
                     (Threw err, e2) \<Rightarrow> e2
                   | (Returned, e2) \<Rightarrow> snd (pullChanges api e2))
         in (Returned, e3\<lparr>isSyncing := False\<rparr>)))"

text \<open>
  \<open>NetworkDetector.updateStatus\<close>, seen from the engine: on a change of status every
  listener is called with the new status. A listener of the engine calls
  \<open>triggerSync\<close> when the status is online; a cycle suspends at its first storage
  call, so a second listener of the engine called in the same turn finds
  \<open>isSyncing\<close> set and is dropped. Other listeners do not touch the engine.
\<close>

definition isEngineListener :: "listener \<Rightarrow> bool" where
  "isEngineListener l = (case l of EngineListener n \<Rightarrow> True | OtherListener n \<Rightarrow> False)"

definition updateStatus ::
    "apiAdapter \<Rightarrow> (conflict \<Rightarrow> resolution promise) \<Rightarrow> bool \<Rightarrow> syncEngine \<Rightarrow> syncEngine" where
  "updateStatus api conflictStrategy newStatus e =
     (if isOnline (network e) \<noteq> newStatus
      then
        (let e1 = e\<lparr>network := (network e)\<lparr>isOnline := newStatus\<rparr>\<rparr> in
         if newStatus \<and> list_ex isEngineListener (listeners (network e1))
         then snd (triggerSync api conflictStrategy e1)
         else e1)
      else e)"

section \<open>Example data\<close>

definition exampleNote :: jsobj where
  "exampleNote = [(''id'', JNum 1), (''title'', JStr ''A''), (''body'', JStr ''x'')]"

definition exampleUpdateOp :: operation where
  "exampleUpdateOp = \<lparr>op_id = ''op1'', op_type = Update, collection = ''notes'', docId = IdNum 1,
                       payload = Some [(''title'', JStr ''B'')], timestamp = 100\<rparr>"

definition exampleDeleteOp :: operation where
  "exampleDeleteOp = \<lparr>op_id = ''op2'', op_type = Delete, collection = ''notes'', docId = IdNum 1,
                       payload = None, timestamp = 90\<rparr>"

definition exampleState :: stateManager where
  "exampleState = \<lparr>state = [''notes'' \<mapsto> [(IdNum 1, exampleNote)]],
                    subscriptions = [''notes'' \<mapsto> [0]],
                    delivered = []\<rparr>"

definition examplePersistence :: persistenceAdapter where
  "examplePersistence =
     \<lparr>tables = [''notes'' \<mapsto> [(IdNum 1, exampleNote)], ''_syncdbg_meta'' \<mapsto> []],
      queueStore = Some [(''op1'', exampleUpdateOp), (''op2'', exampleDeleteOp)],
      queueDocuments = []\<rparr>"

definition exampleNetwork :: networkDetector where
  "exampleNetwork = \<lparr>isOnline = True, listeners = [EngineListener 0, OtherListener 1]\<rparr>"

text \<open>
  An engine that was started once: its listener is registered, the client is online,
  the queue holds two operations and nothing was pulled yet.
\<close>

definition exampleEngine :: syncEngine where
  "exampleEngine = \<lparr>persistence = examplePersistence, network = exampleNetwork,
                     stateManager = exampleState, isSyncing = False, lastPulledAt = None,
                     unsubscribeNetwork = Some 0, apiCalls = []\<rparr>"

text \<open>The document 1 was deleted locally: the state manager no longer holds it.\<close>

definition deletedLocally :: syncEngine where
  "deletedLocally = exampleEngine\<lparr>stateManager := deleteDoc exampleState ''notes'' (IdNum 1)\<rparr>"

text \<open>The local copy of document 1 has a field that the remote document lacks.\<close>

definition localDraft :: jsobj where
  "localDraft = [(''id'', JNum 1), (''title'', JStr ''L''), (''draft'', JBool True)]"

definition draftedLocally :: syncEngine where
  "draftedLocally = exampleEngine\<lparr>stateManager := addDoc exampleState ''notes'' (IdNum 1) localDraft\<rparr>"

definition pulledUpdate :: operation where
  "pulledUpdate = \<lparr>op_id = ''r1'', op_type = Update, collection = ''notes'', docId = IdNum 1,
                    payload = Some [(''id'', JNum 1), (''title'', JStr ''C'')], timestamp = 7\<rparr>"

text \<open>A pulled change for a store that does not exist: applying it fails.\<close>

definition pulledOrphan :: operation where
  "pulledOrphan = \<lparr>op_id = ''r2'', op_type = Create, collection = ''tasks'', docId = IdNum 5,
                    payload = Some [(''id'', JNum 5)], timestamp = 8\<rparr>"

text \<open>A pulled creation of document 2, which the state manager does not hold.\<close>

definition pulledCreate :: operation where
  "pulledCreate = \<lparr>op_id = ''r3'', op_type = Create, collection = ''notes'', docId = IdNum 2,
                    payload = Some [(''id'', JNum 2), (''title'', JStr ''N'')], timestamp = 9\<rparr>"

text \<open>
  A pulled update of document 2 that carries only the changed field, as the updates
  queued by \<open>Collection.update\<close> do.
\<close>

definition pulledDelta :: operation where
  "pulledDelta = \<lparr>op_id = ''r4'', op_type = Update, collection = ''notes'', docId = IdNum 2,
                   payload = Some [(''title'', JStr ''C'')], timestamp = 9\<rparr>"

definition exampleStrategy :: "conflict \<Rightarrow> resolution promise" where
  "exampleStrategy c = Resolved (serverWins c)"

definition rejectingApi :: apiAdapter where
  "rejectingApi = \<lparr>push = (\<lambda>operations. Rejected),
                    pull = (\<lambda>since. Resolved \<lparr>changes = [pulledUpdate], pull_timestamp = 10\<rparr>)\<rparr>"

definition acceptingApi :: apiAdapter where
  "acceptingApi = \<lparr>push = (\<lambda>operations. Resolved \<lparr>successful = map op_id operations, failed = []\<rparr>),
                    pull = (\<lambda>since. Resolved \<lparr>changes = [pulledUpdate], pull_timestamp = 10\<rparr>)\<rparr>"

definition emptyPullApi :: apiAdapter where
  "emptyPullApi = \<lparr>push = (\<lambda>operations. Rejected),
                    pull = (\<lambda>since. Resolved \<lparr>changes = [], pull_timestamp = 20\<rparr>)\<rparr>"

definition laterPullApi :: apiAdapter where
  "laterPullApi = \<lparr>push = (\<lambda>operations. Rejected),
                    pull = (\<lambda>since. Resolved \<lparr>changes = [pulledUpdate], pull_timestamp = 20\<rparr>)\<rparr>"

definition failingPullApi :: apiAdapter where
  "failingPullApi = \<lparr>push = (\<lambda>operations. Rejected),
                      pull = (\<lambda>since. Resolved \<lparr>changes = [pulledUpdate, pulledOrphan],
                                                 pull_timestamp = 30\<rparr>)\<rparr>"

section \<open>Evaluating the examples\<close>

lemmas example_defs = exampleEngine_def examplePersistence_def exampleState_def exampleNote_def
  exampleDeleteOp_def exampleUpdateOp_def exampleNetwork_def pulledUpdate_def pulledOrphan_def
  pulledCreate_def pulledDelta_def exampleStrategy_def rejectingApi_def acceptingApi_def
  emptyPullApi_def laterPullApi_def failingPullApi_def deletedLocally_def draftedLocally_def
  localDraft_def

lemmas engine_defs = triggerSync_def pushChanges_def pushChangesTry_def pullChanges_def
  pullChangesTry_def applyChange_def saveLastPulledAt_def persistedCursor_def logLineThrows_def
  handleFailedOperation_def dequeueOp_def stop_def isConnected_def metaStore_def
  SYNC_QUEUE_STORE_NAME_def documentRows_def withoutKey_def
  getAll_def arraySort_def dequeue_def queue_get_def enqueue_def
  persistence_set_def persistence_get_def persistence_getAll_def persistence_delete_def idOf_def
  updateDoc_def deleteDoc_def addDoc_def ensureCollectionExists_def notifySubscribers_def
  setCollectionState_def loadInitialData_def
  getDoc_def getCollectionState_def spread_def assignAll_def serverWins_def
  AList.delete_eq Let_def

section \<open>The operation queue is drained in timestamp order\<close>

lemma insertBy_insort_key:
  "insertBy (\<lambda>a b. f a - f b) x xs = insort_key (f :: 'a \<Rightarrow> int) x xs"
  by (induction xs) auto

lemma arraySort_sort_key:
  "arraySort (\<lambda>a b. f a - f b) xs = sort_key (f :: 'a \<Rightarrow> int) xs"
  by (simp add: arraySort_def sort_key_def insertBy_insort_key[abs_def])

text \<open>
  C6. Whatever rows the queue store holds and in whatever order a scan returns them,
  \<open>getAll\<close> returns the same operations sorted by ascending timestamp, and the
  operations of one timestamp keep the order of the scan.
\<close>

theorem getAll_sorted_stable:
  "queueStore p = Some rows \<Longrightarrow>
   \<exists>ops. getAll p = Inr ops \<and> sorted (map timestamp ops)
       \<and> mset ops = mset (map snd rows)
       \<and> (\<forall>t. filter (\<lambda>operation. timestamp operation = t) ops
              = filter (\<lambda>operation. timestamp operation = t) (map snd rows))"
  by (simp add: getAll_def arraySort_sort_key sort_key_stable)

theorem getAll_sorted_stable_witness:
  "queueStore examplePersistence = Some [(''op1'', exampleUpdateOp), (''op2'', exampleDeleteOp)]
   \<and> getAll examplePersistence = Inr [exampleDeleteOp, exampleUpdateOp]
   \<and> sorted (map timestamp [exampleDeleteOp, exampleUpdateOp])"
  using getAll_sorted_stable [of examplePersistence
          "[(''op1'', exampleUpdateOp), (''op2'', exampleDeleteOp)]"]
  by (simp add: examplePersistence_def getAll_def arraySort_def
        exampleUpdateOp_def exampleDeleteOp_def)

section \<open>Patching an absent document\<close>

lemma getDoc_ensure [simp]:
  "getDoc (ensureCollectionExists sm c) c' i = getDoc sm c' i"
  by (auto simp: getDoc_def ensureCollectionExists_def Let_def)

lemma getCollectionState_ensure [simp]:
  "getCollectionState (ensureCollectionExists sm c) c' = getCollectionState sm c'"
  by (auto simp: getCollectionState_def ensureCollectionExists_def Let_def)

lemma subscribersOf_ensure [simp]:
  "subscribersOf (ensureCollectionExists sm c) c' = subscribersOf sm c'"
  by (auto simp: subscribersOf_def ensureCollectionExists_def Let_def)

lemma delivered_ensure [simp]:
  "delivered (ensureCollectionExists sm c) = delivered sm"
  by (auto simp: ensureCollectionExists_def Let_def)

lemma updateDoc_absent:
  "getDoc sm c i = None \<Longrightarrow> updateDoc sm c i u = ensureCollectionExists sm c"
  using getDoc_ensure[of sm c c i]
  by (auto simp: updateDoc_def Let_def getDoc_def split: option.splits)

text \<open>
  C8. \<open>updateDoc\<close> for an id that the collection does not hold changes nothing that
  can be observed: every collection lists the same documents, every lookup gives the
  same answer, the subscribers are the same and no callback is invoked. The function
  has no path that throws.
\<close>

theorem updateDoc_absent_noop:
  "getDoc sm collectionName i = None \<Longrightarrow>
     (\<forall>c. getCollectionState (updateDoc sm collectionName i updates) c = getCollectionState sm c)
   \<and> (\<forall>c j. getDoc (updateDoc sm collectionName i updates) c j = getDoc sm c j)
   \<and> (\<forall>c. subscribersOf (updateDoc sm collectionName i updates) c = subscribersOf sm c)
   \<and> delivered (updateDoc sm collectionName i updates) = delivered sm"
  by (simp add: updateDoc_absent)

theorem updateDoc_absent_noop_witness:
  "getDoc exampleState ''notes'' (IdNum 2) = None
   \<and> getCollectionState (updateDoc exampleState ''notes'' (IdNum 2) (Some [(''title'', JStr ''B'')]))
         ''notes'' = [exampleNote]
   \<and> delivered (updateDoc exampleState ''notes'' (IdNum 2) (Some [(''title'', JStr ''B'')])) = []"
  using updateDoc_absent_noop [of exampleState "''notes''" "IdNum 2" "Some [(''title'', JStr ''B'')]"]
  by (simp add: getDoc_def getCollectionState_def exampleState_def)

text \<open>
  C7. \<open>update\<close> of the collection facade for an id absent from the state manager
  throws the not-found error, and at that point storage and queue are the ones it
  started with, the state manager lists the same documents with the same subscribers,
  and no callback was invoked.
\<close>

theorem collection_update_absent:
  "getDoc sm name i = None \<Longrightarrow>
     fst (collection_update name i updates newOpId now (sm, p)) = Threw NotFound
   \<and> snd (snd (collection_update name i updates newOpId now (sm, p))) = p
   \<and> (\<forall>c. getCollectionState (fst (snd (collection_update name i updates newOpId now (sm, p)))) c
            = getCollectionState sm c)
   \<and> (\<forall>c j. getDoc (fst (snd (collection_update name i updates newOpId now (sm, p)))) c j
            = getDoc sm c j)
   \<and> (\<forall>c. subscribersOf (fst (snd (collection_update name i updates newOpId now (sm, p)))) c
            = subscribersOf sm c)
   \<and> delivered (fst (snd (collection_update name i updates newOpId now (sm, p)))) = delivered sm"
  by (simp add: collection_update_def Let_def updateDoc_absent)

theorem collection_update_absent_witness:
  "getDoc exampleState ''notes'' (IdNum 2) = None
   \<and> fst (collection_update ''notes'' (IdNum 2) [(''title'', JStr ''B'')] ''op3'' 120
            (exampleState, examplePersistence)) = Threw NotFound
   \<and> snd (snd (collection_update ''notes'' (IdNum 2) [(''title'', JStr ''B'')] ''op3'' 120
            (exampleState, examplePersistence))) = examplePersistence"
  using collection_update_absent [of exampleState "''notes''" "IdNum 2"
          "[(''title'', JStr ''B'')]" "''op3''" 120 examplePersistence]
  by (simp add: getDoc_def exampleState_def)

section \<open>Conflict strategies\<close>

lemma map_of_assignAll:
  "distinct (map fst b) \<Longrightarrow>
   map_of (assignAll a b) k = (case map_of b k of Some v \<Rightarrow> Some v | None \<Rightarrow> map_of a k)"
proof (induction b arbitrary: a)
  case Nil
  then show ?case by (simp add: assignAll_def)
next
  case (Cons x xs)
  obtain kx vx where x: "x = (kx, vx)" by (cases x)
  have d: "distinct (map fst xs)" and nin: "kx \<notin> fst ` set xs"
    using Cons.prems x by auto
  have n: "map_of xs kx = None" using nin by (simp add: map_of_eq_None_iff)
  have "map_of (assignAll a (x # xs)) k = map_of (assignAll (AList.update kx vx a) xs) k"
    by (simp add: assignAll_def x)
  also have "\<dots> = (case map_of xs k of Some v \<Rightarrow> Some v | None \<Rightarrow> map_of (AList.update kx vx a) k)"
    using Cons.IH[OF d] .
  finally show ?case using n by (auto simp: x update_conv' split: option.splits)
qed

lemma lastWriteWins_nonzero:
  "dateGetTime dateParse (map_of (remoteState c) tf) = Some r \<Longrightarrow> r \<noteq> 0 \<Longrightarrow>
   lastWriteWins dateParse tf c = (if timestamp (localOperation c) > r then Local else Remote)"
  by (simp add: lastWriteWins_def)

lemma lastWriteWins_missing:
  "dateGetTime dateParse (map_of (remoteState c) tf) = None \<Longrightarrow>
   lastWriteWins dateParse tf c = Remote"
  by (simp add: lastWriteWins_def)

text \<open>
  C4. The local operation carries timestamp 100 and the remote document's
  \<open>updatedAt\<close> is the number 0, the epoch, which \<open>Date\<close> reads as the time 0.
  The local timestamp is strictly greater, and \<open>lastWriteWins\<close> answers that the
  remote document wins: it takes the time 0 for a missing field.
\<close>

theorem lastWriteWins_epoch_zero:
  "lastWriteWins dateParse ''updatedAt''
     \<lparr>localOperation = exampleUpdateOp,
      remoteState = [(''id'', JNum 1), (''updatedAt'', JNum 0)]\<rparr> = Remote
   \<and> dateGetTime dateParse (map_of [(''id'', JNum 1), (''updatedAt'', JNum 0)] ''updatedAt'') = Some 0
   \<and> timestamp exampleUpdateOp > 0"
  by (simp add: lastWriteWins_def dateGetTime_def exampleUpdateOp_def)

text \<open>
  C5, as stated, fails when the merged document has no timestamp: the remote
  document \<open>exampleNote\<close> has no \<open>updatedAt\<close>, and the merge of the delta
  \<open>{title: "B"}\<close> comes back without one.
\<close>

theorem fieldLevelMerge_no_stamp:
  "fieldLevelMerge ''2024-05-01T10:00:00.000Z'' ''updatedAt''
     \<lparr>localOperation = exampleUpdateOp, remoteState = exampleNote\<rparr>
   = Merged [(''id'', JNum 1), (''title'', JStr ''B''), (''body'', JStr ''x'')]
   \<and> map_of [(''id'', JNum 1), (''title'', JStr ''B''), (''body'', JStr ''x'')] ''updatedAt''
       \<noteq> Some (JStr ''2024-05-01T10:00:00.000Z'')"
  by (simp add: fieldLevelMerge_def exampleUpdateOp_def exampleNote_def setProperty_def
        getTruthy_def objectPrototypeKeys_def)

lemma map_of_setProperties:
  "distinct (map fst delta) \<Longrightarrow> k \<noteq> ''__proto__'' \<Longrightarrow>
   map_of (fst (fold (\<lambda>(k, v). setProperty k v) delta obj)) k
   = (case map_of delta k of Some v \<Rightarrow> Some v | None \<Rightarrow> map_of (fst obj) k)"
proof (induction delta arbitrary: obj)
  case Nil
  then show ?case by simp
next
  case (Cons x xs)
  obtain kx vx where x: "x = (kx, vx)" by (cases x)
  obtain own hasPrototype where obj: "obj = (own, hasPrototype)" by (cases obj)
  have d: "distinct (map fst xs)" and nin: "kx \<notin> fst ` set xs"
    using Cons.prems x by auto
  have n: "map_of xs kx = None" using nin by (simp add: map_of_eq_None_iff)
  have step: "map_of (fst (setProperty kx vx obj)) k
              = (if k = kx then Some vx else map_of own k)"
    using Cons.prems(2) by (auto simp: setProperty_def obj update_conv')
  have "map_of (fst (fold (\<lambda>(k, v). setProperty k v) (x # xs) obj)) k
        = (case map_of xs k of Some v \<Rightarrow> Some v
           | None \<Rightarrow> map_of (fst (setProperty kx vx obj)) k)"
    using Cons.IH[OF d Cons.prems(2), of "setProperty kx vx obj"] by (simp add: x)
  then show ?case using n step by (auto simp: x obj split: option.splits)
qed

lemma getTruthy_ordinary:
  "k \<notin> set objectPrototypeKeys \<Longrightarrow> getTruthy obj k = truthy (map_of (fst obj) k)"
  by (cases obj) (auto simp: getTruthy_def split: option.splits)

lemma setProperty_ordinary:
  "k \<noteq> ''__proto__'' \<Longrightarrow> fst (setProperty k v obj) = AList.update k v (fst obj)"
  by (cases obj) (simp add: setProperty_def)

lemma fieldLevelMerge_update:
  assumes "op_type (localOperation c) = Update" and "payload (localOperation c) = Some delta"
    and "distinct (map fst delta)" and "tf \<notin> set objectPrototypeKeys"
  shows "\<exists>d. fieldLevelMerge now tf c = Merged d
          \<and> (\<forall>k. k \<noteq> tf \<and> k \<noteq> ''__proto__'' \<longrightarrow>
                 map_of d k = (case map_of delta k of
                                 Some v \<Rightarrow> Some v | None \<Rightarrow> map_of (remoteState c) k))
          \<and> (truthy (case map_of delta tf of
                         Some v \<Rightarrow> Some v | None \<Rightarrow> map_of (remoteState c) tf) \<longrightarrow>
                 map_of d tf = Some (JStr now))
          \<and> (map_of delta tf = None \<and> map_of (remoteState c) tf = None \<longrightarrow>
                 map_of d tf = None)"
proof -
  let ?m = "fold (\<lambda>(k, v). setProperty k v) delta (remoteState c, True)"
  have tf: "tf \<noteq> ''__proto__''"
    using assms(4) by (auto simp: objectPrototypeKeys_def)
  have m: "\<And>k. k \<noteq> ''__proto__'' \<Longrightarrow>
             map_of (fst ?m) k = (case map_of delta k of
                                    Some v \<Rightarrow> Some v | None \<Rightarrow> map_of (remoteState c) k)"
    using map_of_setProperties[OF assms(3), of _ "(remoteState c, True)"]
    by (simp split: option.split)
  let ?merged = "case map_of delta tf of Some v \<Rightarrow> Some v | None \<Rightarrow> map_of (remoteState c) tf"
  have mt: "map_of (fst ?m) tf = ?merged" using m[OF tf] .
  have g: "getTruthy ?m tf = truthy ?merged"
    using getTruthy_ordinary[OF assms(4), of ?m] mt by simp
  have s: "fst (setProperty tf (JStr now) ?m) = AList.update tf (JStr now) (fst ?m)"
    using tf by (rule setProperty_ordinary)
  show ?thesis
  proof (cases "truthy ?merged")
    case True
    then have r: "fieldLevelMerge now tf c = Merged (AList.update tf (JStr now) (fst ?m))"
      using assms(1,2) s g by (simp add: fieldLevelMerge_def Let_def)
    have a: "\<forall>k. k \<noteq> tf \<and> k \<noteq> ''__proto__'' \<longrightarrow>
              map_of (AList.update tf (JStr now) (fst ?m)) k
              = (case map_of delta k of Some v \<Rightarrow> Some v | None \<Rightarrow> map_of (remoteState c) k)"
      using m by (simp add: update_conv')
    have b: "map_of (AList.update tf (JStr now) (fst ?m)) tf = Some (JStr now)"
      by (simp add: update_conv')
    have n: "\<not> (map_of delta tf = None \<and> map_of (remoteState c) tf = None)"
      using True by (cases "map_of delta tf"; cases "map_of (remoteState c) tf") auto
    show ?thesis using r a b n by blast
  next
    case False
    then have r: "fieldLevelMerge now tf c = Merged (fst ?m)"
      using assms(1,2) g by (simp add: fieldLevelMerge_def Let_def)
    have a: "\<forall>k. k \<noteq> tf \<and> k \<noteq> ''__proto__'' \<longrightarrow>
              map_of (fst ?m) k
              = (case map_of delta k of Some v \<Rightarrow> Some v | None \<Rightarrow> map_of (remoteState c) k)"
      using m by simp
    have c: "map_of delta tf = None \<and> map_of (remoteState c) tf = None \<longrightarrow>
             map_of (fst ?m) tf = None"
      using mt by simp
    show ?thesis using r a c False by blast
  qed
qed

lemma handleFailedOperation_degrades:
  assumes "queue_get (persistence e) (operationId f) = Inr (Some localOp)"
    and "op_type localOp \<noteq> Update \<or> payload localOp = None"
  shows "handleFailedOperation (\<lambda>c. Resolved (fieldLevelMerge now tf c)) f e
         = handleFailedOperation (\<lambda>c. Resolved (serverWins c)) f e"
  using assms
  by (auto simp: handleFailedOperation_def fieldLevelMerge_def serverWins_def Let_def
        split: option.splits)

text \<open>
  C5, amended. For an Update operation with a payload (an object, whose keys are
  distinct) and a timestamp field that is not a property name of \<open>Object.prototype\<close>,
  \<open>fieldLevelMerge\<close> returns a document that reads, at every field other than the
  timestamp field and \<open>__proto__\<close>, the delta's value where the delta has the field
  and the remote document's value elsewhere; the timestamp field reads the resolution
  time when the value merged there is truthy, and is absent when neither the delta
  nor the remote document has it. For a Create or Delete operation, or without a
  payload, the remote document is returned as it is, and \<open>handleFailedOperation\<close> then
  does what it does for the strategy that lets the remote document win.
\<close>

theorem fieldLevelMerge_amended:
  "(op_type (localOperation c) = Update \<and> payload (localOperation c) = Some delta
      \<and> distinct (map fst delta) \<and> tf \<notin> set objectPrototypeKeys \<longrightarrow>
      (\<exists>d. fieldLevelMerge now tf c = Merged d
          \<and> (\<forall>k. k \<noteq> tf \<and> k \<noteq> ''__proto__'' \<longrightarrow>
                 map_of d k = (case map_of delta k of
                                 Some v \<Rightarrow> Some v | None \<Rightarrow> map_of (remoteState c) k))
          \<and> (truthy (case map_of delta tf of
                         Some v \<Rightarrow> Some v | None \<Rightarrow> map_of (remoteState c) tf) \<longrightarrow>
                 map_of d tf = Some (JStr now))
          \<and> (map_of delta tf = None \<and> map_of (remoteState c) tf = None \<longrightarrow>
                 map_of d tf = None)))
   \<and> (op_type (localOperation c) \<noteq> Update \<or> payload (localOperation c) = None \<longrightarrow>
        fieldLevelMerge now tf c = Merged (remoteState c))
   \<and> (queue_get (persistence e) (operationId f) = Inr (Some localOp)
        \<and> (op_type localOp \<noteq> Update \<or> payload localOp = None) \<longrightarrow>
        handleFailedOperation (\<lambda>c. Resolved (fieldLevelMerge now tf c)) f e
        = handleFailedOperation (\<lambda>c. Resolved (serverWins c)) f e)"
proof (intro conjI impI)
  assume "op_type (localOperation c) = Update \<and> payload (localOperation c) = Some delta
      \<and> distinct (map fst delta) \<and> tf \<notin> set objectPrototypeKeys"
  then show "\<exists>d. fieldLevelMerge now tf c = Merged d
          \<and> (\<forall>k. k \<noteq> tf \<and> k \<noteq> ''__proto__'' \<longrightarrow>
                 map_of d k = (case map_of delta k of
                                 Some v \<Rightarrow> Some v | None \<Rightarrow> map_of (remoteState c) k))
          \<and> (truthy (case map_of delta tf of
                         Some v \<Rightarrow> Some v | None \<Rightarrow> map_of (remoteState c) tf) \<longrightarrow>
                 map_of d tf = Some (JStr now))
          \<and> (map_of delta tf = None \<and> map_of (remoteState c) tf = None \<longrightarrow>
                 map_of d tf = None)"
    using fieldLevelMerge_update[of c delta tf now] by blast
next
  assume "op_type (localOperation c) \<noteq> Update \<or> payload (localOperation c) = None"
  then show "fieldLevelMerge now tf c = Merged (remoteState c)"
    by (auto simp: fieldLevelMerge_def)
next
  assume "queue_get (persistence e) (operationId f) = Inr (Some localOp)
        \<and> (op_type localOp \<noteq> Update \<or> payload localOp = None)"
  then show "handleFailedOperation (\<lambda>c. Resolved (fieldLevelMerge now tf c)) f e
        = handleFailedOperation (\<lambda>c. Resolved (serverWins c)) f e"
    using handleFailedOperation_degrades[of e f localOp now tf] by blast
qed

theorem fieldLevelMerge_amended_witness:
  "op_type exampleUpdateOp = Update \<and> payload exampleUpdateOp = Some [(''title'', JStr ''B'')]
   \<and> distinct (map fst [(''title'', JStr ''B'')])
   \<and> ''updatedAt'' \<notin> set objectPrototypeKeys
   \<and> fieldLevelMerge ''T1'' ''updatedAt''
         \<lparr>localOperation = exampleUpdateOp,
          remoteState = exampleNote @ [(''updatedAt'', JStr ''T0'')]\<rparr>
       = Merged [(''id'', JNum 1), (''title'', JStr ''B''), (''body'', JStr ''x''),
                 (''updatedAt'', JStr ''T1'')]
   \<and> op_type exampleDeleteOp \<noteq> Update
   \<and> fieldLevelMerge ''T1'' ''updatedAt''
         \<lparr>localOperation = exampleDeleteOp, remoteState = exampleNote\<rparr> = Merged exampleNote
   \<and> queue_get (persistence exampleEngine) ''op2'' = Inr (Some exampleDeleteOp)
   \<and> handleFailedOperation (\<lambda>c. Resolved (fieldLevelMerge ''T1'' ''updatedAt'' c))
         \<lparr>operationId = ''op2'', errorRemoteState = Some exampleNote\<rparr> exampleEngine
       = handleFailedOperation (\<lambda>c. Resolved (serverWins c))
         \<lparr>operationId = ''op2'', errorRemoteState = Some exampleNote\<rparr> exampleEngine"
proof -
  have q: "queue_get (persistence exampleEngine) ''op2'' = Inr (Some exampleDeleteOp)"
    by (simp add: exampleEngine_def examplePersistence_def queue_get_def)
  have n: "op_type exampleDeleteOp \<noteq> Update" by (simp add: exampleDeleteOp_def)
  have k: "''updatedAt'' \<notin> set objectPrototypeKeys"
    by (simp add: objectPrototypeKeys_def)
  have h: "handleFailedOperation (\<lambda>c. Resolved (fieldLevelMerge ''T1'' ''updatedAt'' c))
         \<lparr>operationId = ''op2'', errorRemoteState = Some exampleNote\<rparr> exampleEngine
       = handleFailedOperation (\<lambda>c. Resolved (serverWins c))
         \<lparr>operationId = ''op2'', errorRemoteState = Some exampleNote\<rparr> exampleEngine"
    using fieldLevelMerge_amended [of "\<lparr>localOperation = exampleDeleteOp, remoteState = exampleNote\<rparr>"
            "[]" "''updatedAt''" "''T1''" exampleEngine
            "\<lparr>operationId = ''op2'', errorRemoteState = Some exampleNote\<rparr>" exampleDeleteOp]
          q n
    by simp
  have u: "fieldLevelMerge ''T1'' ''updatedAt''
         \<lparr>localOperation = exampleUpdateOp,
          remoteState = exampleNote @ [(''updatedAt'', JStr ''T0'')]\<rparr>
       = Merged [(''id'', JNum 1), (''title'', JStr ''B''), (''body'', JStr ''x''),
                 (''updatedAt'', JStr ''T1'')]"
    by (simp add: fieldLevelMerge_def exampleUpdateOp_def exampleNote_def setProperty_def
          getTruthy_def)
  have d: "fieldLevelMerge ''T1'' ''updatedAt''
         \<lparr>localOperation = exampleDeleteOp, remoteState = exampleNote\<rparr> = Merged exampleNote"
    by (simp add: fieldLevelMerge_def exampleDeleteOp_def)
  show ?thesis using q n k h u d by (simp add: exampleUpdateOp_def)
qed

section \<open>Applying a pulled change or a resolution to an absent document\<close>

lemma map_of_loaded:
  "distinct (map fst rows) \<Longrightarrow> \<forall>(i, d)\<in>set rows. idOf d = Some i \<Longrightarrow>
   map_of (fold (\<lambda>doc m. case idOf doc of None \<Rightarrow> m | Some i \<Rightarrow> AList.update i doc m)
             (map snd rows) acc) k
   = (case map_of rows k of Some d \<Rightarrow> Some d | None \<Rightarrow> map_of acc k)"
proof (induction rows arbitrary: acc)
  case Nil
  then show ?case by simp
next
  case (Cons x rows)
  obtain i d where x: "x = (i, d)" by (cases x)
  have id: "idOf d = Some i" using Cons.prems(2) x by simp
  have dist: "distinct (map fst rows)" and wk: "\<forall>(i, d)\<in>set rows. idOf d = Some i"
    using Cons.prems by auto
  have n: "map_of rows i = None"
    using Cons.prems(1) x by (simp add: map_of_eq_None_iff)
  show ?case
    using Cons.IH[OF dist wk, of "AList.update i d acc"] n
    by (auto simp: x id update_conv' split: option.splits)
qed

lemma getDoc_setCollectionState:
  "getDoc (setCollectionState sm name data) name k
   = map_of (fold (\<lambda>doc m. case idOf doc of None \<Rightarrow> m | Some i \<Rightarrow> AList.update i doc m) data []) k"
  by (auto simp: setCollectionState_def getDoc_def notifySubscribers_def Let_def
        ensureCollectionExists_def split: option.splits)

lemma wellKeyed_update:
  "\<forall>(i, d)\<in>set rows. idOf d = Some i \<Longrightarrow> idOf doc = Some k \<Longrightarrow>
   \<forall>(i, d)\<in>set (AList.update k doc rows). idOf d = Some i"
  by (induction rows) auto

lemma documentRows_set:
  assumes "persistence_set p name (Some doc) = Inr p'" and "idOf doc = Some k"
    and "documentRows p name = Some rows"
  shows "documentRows p' name = Some (AList.update k doc rows)"
proof (cases "name = SYNC_QUEUE_STORE_NAME")
  case True
  then obtain operations where q: "queueStore p = Some operations"
    using assms(3) by (auto simp: documentRows_def split: option.splits)
  have "p' = p\<lparr>queueDocuments := AList.update k doc rows,
                 queueStore := map_option (withoutKey k) (queueStore p)\<rparr>"
    using assms True by (simp add: persistence_set_def)
  then show ?thesis using True q by (simp add: documentRows_def)
next
  case False
  then have "p' = p\<lparr>tables := (tables p)(name \<mapsto> AList.update k doc rows)\<rparr>"
    using assms by (simp add: persistence_set_def)
  then show ?thesis using False by (simp add: documentRows_def)
qed

lemma persistence_set_accepts:
  "idOf doc = Some k \<Longrightarrow> documentRows p name = Some rows \<Longrightarrow>
   \<exists>p'. persistence_set p name (Some doc) = Inr p'"
  by (simp add: persistence_set_def)

lemma persistence_set_rejects:
  "v = None \<or> (\<exists>doc. v = Some doc \<and> idOf doc = None) \<or> documentRows p name = None \<Longrightarrow>
   persistence_set p name v = Inl StorageError"
  by (auto simp: persistence_set_def split: option.splits)

lemma loadInitialData_after_set:
  assumes "persistence_set p name (Some doc) = Inr p'" and "idOf doc = Some k"
    and "documentRows p name = Some rows" and "distinct (map fst rows)"
    and "\<forall>(i, d)\<in>set rows. idOf d = Some i"
  shows "getDoc (loadInitialData name (sm, p')) name k = Some doc"
proof -
  let ?rows = "AList.update k doc rows"
  have t: "documentRows p' name = Some ?rows"
    using documentRows_set[OF assms(1,2,3)] .
  have d: "distinct (map fst ?rows)" using assms(4) by (simp add: distinct_update)
  have w: "\<forall>(i, d)\<in>set ?rows. idOf d = Some i"
    using wellKeyed_update[OF assms(5,2)] .
  have "getDoc (loadInitialData name (sm, p')) name k
        = (case map_of ?rows k of Some d \<Rightarrow> Some d | None \<Rightarrow> map_of [] k)"
    using t map_of_loaded[OF d w, of "[]" k]
    by (simp add: loadInitialData_def persistence_getAll_def getDoc_setCollectionState)
  then show ?thesis by (simp add: update_conv')
qed

lemma applyChange_absent:
  assumes "op_type op \<noteq> Delete"
    and "getDoc (stateManager e) (collection op) (docId op) = None"
  shows "applyChange op e =
           (let e1 = e\<lparr>stateManager := ensureCollectionExists (stateManager e) (collection op)\<rparr>
            in case persistence_set (persistence e) (collection op) (payload op) of
                 Inl err \<Rightarrow> (Threw err, e1)
               | Inr p \<Rightarrow> (Returned, e1\<lparr>persistence := p\<rparr>))"
  using assms by (cases "op_type op") (simp_all add: applyChange_def Let_def updateDoc_absent)

text \<open>
  C10, as stated, fails for a pulled update that carries only the changed field: the
  state manager does not hold document 2, the payload \<open>{title: "C"}\<close> has no \<open>id\<close>,
  storage rejects it and nothing is written.
\<close>

theorem applyChange_delta_not_stored:
  "op_type pulledDelta = Update
   \<and> getDoc (stateManager exampleEngine) (collection pulledDelta) (docId pulledDelta) = None
   \<and> fst (applyChange pulledDelta exampleEngine) = Threw StorageError
   \<and> persistence (snd (applyChange pulledDelta exampleEngine)) = examplePersistence"
  by (simp add: example_defs engine_defs)

text \<open>
  C10, amended. For a pulled Create or Update whose document id the state manager
  does not hold, the state manager afterwards still does not hold the document, lists
  the same documents in every collection with the same subscribers and has invoked
  no callback. When the store of the collection exists and the payload is a document
  with a string or number id, the change returns normally with the payload in storage
  under the payload's id, so that storage holds a document the state manager lacks;
  loading the collection again from storage (whose rows are keyed by the id of the
  document they hold) brings the document into the state manager. When the payload is
  missing or has no such id, or the store does not exist, the change throws the
  storage error and storage is as it was.
\<close>

theorem applyChange_absent_diverges:
  "op_type op \<noteq> Delete \<Longrightarrow> getDoc (stateManager e) (collection op) (docId op) = None \<Longrightarrow>
     getDoc (stateManager (snd (applyChange op e))) (collection op) (docId op) = None
   \<and> (\<forall>c. getCollectionState (stateManager (snd (applyChange op e))) c
            = getCollectionState (stateManager e) c)
   \<and> (\<forall>c j. getDoc (stateManager (snd (applyChange op e))) c j = getDoc (stateManager e) c j)
   \<and> (\<forall>c. subscribersOf (stateManager (snd (applyChange op e))) c
            = subscribersOf (stateManager e) c)
   \<and> delivered (stateManager (snd (applyChange op e))) = delivered (stateManager e)
   \<and> (\<forall>doc k rows.
          payload op = Some doc \<and> idOf doc = Some k
          \<and> documentRows (persistence e) (collection op) = Some rows \<longrightarrow>
            fst (applyChange op e) = Returned
          \<and> persistence_get (persistence (snd (applyChange op e))) (collection op) k
              = Inr (Some doc)
          \<and> (distinct (map fst rows) \<and> (\<forall>(i, d)\<in>set rows. idOf d = Some i) \<longrightarrow>
               getDoc (loadInitialData (collection op)
                         (stateManager (snd (applyChange op e)),
                          persistence (snd (applyChange op e))))
                 (collection op) k = Some doc))
   \<and> (payload op = None \<or> (\<exists>doc. payload op = Some doc \<and> idOf doc = None)
        \<or> documentRows (persistence e) (collection op) = None \<longrightarrow>
          fst (applyChange op e) = Threw StorageError
        \<and> persistence (snd (applyChange op e)) = persistence e)"
proof -
  assume a: "op_type op \<noteq> Delete" "getDoc (stateManager e) (collection op) (docId op) = None"
  let ?e1 = "e\<lparr>stateManager := ensureCollectionExists (stateManager e) (collection op)\<rparr>"
  note r = applyChange_absent[OF a]
  have sm: "stateManager (snd (applyChange op e))
            = ensureCollectionExists (stateManager e) (collection op)"
    using r by (simp add: Let_def split: sum.splits)
  have accepted: "\<forall>doc k rows.
          payload op = Some doc \<and> idOf doc = Some k
          \<and> documentRows (persistence e) (collection op) = Some rows \<longrightarrow>
            fst (applyChange op e) = Returned
          \<and> persistence_get (persistence (snd (applyChange op e))) (collection op) k
              = Inr (Some doc)
          \<and> (distinct (map fst rows) \<and> (\<forall>(i, d)\<in>set rows. idOf d = Some i) \<longrightarrow>
               getDoc (loadInitialData (collection op)
                         (stateManager (snd (applyChange op e)),
                          persistence (snd (applyChange op e))))
                 (collection op) k = Some doc)"
  proof (intro allI impI)
    fix doc k rows
    assume h: "payload op = Some doc \<and> idOf doc = Some k
          \<and> documentRows (persistence e) (collection op) = Some rows"
    then obtain p' where s: "persistence_set (persistence e) (collection op) (Some doc) = Inr p'"
      using persistence_set_accepts[of doc k "persistence e" "collection op" rows] by blast
    have res: "applyChange op e = (Returned, ?e1\<lparr>persistence := p'\<rparr>)"
      using r s h by (simp add: Let_def)
    have rows': "documentRows p' (collection op) = Some (AList.update k doc rows)"
      using documentRows_set[OF s] h by blast
    have g: "persistence_get p' (collection op) k = Inr (Some doc)"
      using rows' by (simp add: persistence_get_def update_conv')
    have l: "distinct (map fst rows) \<and> (\<forall>(i, d)\<in>set rows. idOf d = Some i) \<longrightarrow>
             getDoc (loadInitialData (collection op)
                       (ensureCollectionExists (stateManager e) (collection op), p'))
               (collection op) k = Some doc"
      using loadInitialData_after_set[OF s] h by blast
    show "fst (applyChange op e) = Returned
          \<and> persistence_get (persistence (snd (applyChange op e))) (collection op) k
              = Inr (Some doc)
          \<and> (distinct (map fst rows) \<and> (\<forall>(i, d)\<in>set rows. idOf d = Some i) \<longrightarrow>
               getDoc (loadInitialData (collection op)
                         (stateManager (snd (applyChange op e)),
                          persistence (snd (applyChange op e))))
                 (collection op) k = Some doc)"
      using res g l by simp
  qed
  have rejected: "payload op = None \<or> (\<exists>doc. payload op = Some doc \<and> idOf doc = None)
        \<or> documentRows (persistence e) (collection op) = None \<longrightarrow>
          fst (applyChange op e) = Threw StorageError
        \<and> persistence (snd (applyChange op e)) = persistence e"
  proof
    assume "payload op = None \<or> (\<exists>doc. payload op = Some doc \<and> idOf doc = None)
        \<or> documentRows (persistence e) (collection op) = None"
    then have "persistence_set (persistence e) (collection op) (payload op) = Inl StorageError"
      by (rule persistence_set_rejects)
    then show "fst (applyChange op e) = Threw StorageError
        \<and> persistence (snd (applyChange op e)) = persistence e"
      using r by (simp add: Let_def)
  qed
  have st: "getDoc (stateManager (snd (applyChange op e))) (collection op) (docId op) = None
   \<and> (\<forall>c. getCollectionState (stateManager (snd (applyChange op e))) c
            = getCollectionState (stateManager e) c)
   \<and> (\<forall>c j. getDoc (stateManager (snd (applyChange op e))) c j = getDoc (stateManager e) c j)
   \<and> (\<forall>c. subscribersOf (stateManager (snd (applyChange op e))) c
            = subscribersOf (stateManager e) c)
   \<and> delivered (stateManager (snd (applyChange op e))) = delivered (stateManager e)"
    using sm a(2) by simp
  from st accepted rejected show ?thesis by (intro conjI) (erule conjE | assumption)+
qed

theorem applyChange_absent_diverges_witness:
  "op_type pulledCreate \<noteq> Delete
   \<and> getDoc (stateManager exampleEngine) ''notes'' (IdNum 2) = None
   \<and> fst (applyChange pulledCreate exampleEngine) = Returned
   \<and> persistence_get (persistence (snd (applyChange pulledCreate exampleEngine))) ''notes'' (IdNum 2)
       = Inr (Some [(''id'', JNum 2), (''title'', JStr ''N'')])
   \<and> getDoc (stateManager (snd (applyChange pulledCreate exampleEngine))) ''notes'' (IdNum 2) = None
   \<and> delivered (stateManager (snd (applyChange pulledCreate exampleEngine))) = []
   \<and> getDoc (loadInitialData ''notes''
              (stateManager (snd (applyChange pulledCreate exampleEngine)),
               persistence (snd (applyChange pulledCreate exampleEngine))))
         ''notes'' (IdNum 2) = Some [(''id'', JNum 2), (''title'', JStr ''N'')]
   \<and> op_type pulledDelta \<noteq> Delete
   \<and> fst (applyChange pulledDelta exampleEngine) = Threw StorageError
   \<and> persistence (snd (applyChange pulledDelta exampleEngine)) = examplePersistence"
proof -
  have h1: "op_type pulledCreate \<noteq> Delete" by (simp add: pulledCreate_def)
  have h2: "getDoc (stateManager exampleEngine) (collection pulledCreate) (docId pulledCreate) = None"
    by (simp add: example_defs getDoc_def)
  have h3: "payload pulledCreate = Some [(''id'', JNum 2), (''title'', JStr ''N'')]"
    by (simp add: pulledCreate_def)
  have h4: "idOf [(''id'', JNum 2), (''title'', JStr ''N'')] = Some (IdNum 2)"
    by (simp add: idOf_def)
  have h5: "documentRows (persistence exampleEngine) (collection pulledCreate)
            = Some [(IdNum 1, exampleNote)]"
    by (simp add: exampleEngine_def examplePersistence_def pulledCreate_def documentRows_def
          SYNC_QUEUE_STORE_NAME_def)
  have h6: "distinct (map fst [(IdNum 1, exampleNote)])
            \<and> (\<forall>(i, d)\<in>set [(IdNum 1, exampleNote)]. idOf d = Some i)"
    by (simp add: idOf_def exampleNote_def)
  have c: "collection pulledCreate = ''notes'' \<and> docId pulledCreate = IdNum 2"
    by (simp add: pulledCreate_def)
  have d: "delivered (stateManager exampleEngine) = []"
    by (simp add: exampleEngine_def exampleState_def)
  have g1: "op_type pulledDelta \<noteq> Delete" by (simp add: pulledDelta_def)
  have g2: "getDoc (stateManager exampleEngine) (collection pulledDelta) (docId pulledDelta) = None"
    by (simp add: example_defs getDoc_def)
  have g3: "\<exists>doc. payload pulledDelta = Some doc \<and> idOf doc = None"
    by (simp add: pulledDelta_def idOf_def)
  have p: "persistence exampleEngine = examplePersistence" by (simp add: exampleEngine_def)
  have w1: "fst (applyChange pulledCreate exampleEngine) = Returned
     \<and> persistence_get (persistence (snd (applyChange pulledCreate exampleEngine)))
           (collection pulledCreate) (IdNum 2)
         = Inr (Some [(''id'', JNum 2), (''title'', JStr ''N'')])
     \<and> getDoc (loadInitialData (collection pulledCreate)
              (stateManager (snd (applyChange pulledCreate exampleEngine)),
               persistence (snd (applyChange pulledCreate exampleEngine))))
           (collection pulledCreate) (IdNum 2) = Some [(''id'', JNum 2), (''title'', JStr ''N'')]"
    using applyChange_absent_diverges [OF h1 h2] h3 h4 h5 h6 by blast
  have w2: "getDoc (stateManager (snd (applyChange pulledCreate exampleEngine)))
              (collection pulledCreate) (docId pulledCreate) = None
     \<and> delivered (stateManager (snd (applyChange pulledCreate exampleEngine))) = []"
    using applyChange_absent_diverges [OF h1 h2] d by metis
  have w3: "fst (applyChange pulledDelta exampleEngine) = Threw StorageError
     \<and> persistence (snd (applyChange pulledDelta exampleEngine)) = examplePersistence"
    using applyChange_absent_diverges [OF g1 g2] g3 p by metis
  show ?thesis using h1 h2 w1 w2 w3 g1 c by simp
qed

text \<open>
  C3. Two runs of \<open>handleFailedOperation\<close> with the strategy that lets the remote
  document win. In the first the document was deleted locally: afterwards storage
  holds the remote document and the operation is dequeued, and the state manager
  still has no document. In the second the local copy has a field \<open>draft\<close> that the
  remote document lacks: afterwards the copy in the state manager is the remote
  document with \<open>draft\<close> kept, not the remote document.
\<close>

theorem handleFailedOperation_remote_not_overwritten:
  "getDoc (stateManager (snd (handleFailedOperation (\<lambda>c. Resolved (serverWins c))
       \<lparr>operationId = ''op2'', errorRemoteState = Some exampleNote\<rparr> deletedLocally)))
     ''notes'' (IdNum 1) = None
   \<and> persistence_get (persistence (snd (handleFailedOperation (\<lambda>c. Resolved (serverWins c))
       \<lparr>operationId = ''op2'', errorRemoteState = Some exampleNote\<rparr> deletedLocally)))
     ''notes'' (IdNum 1) = Inr (Some exampleNote)
   \<and> queue_get (persistence (snd (handleFailedOperation (\<lambda>c. Resolved (serverWins c))
       \<lparr>operationId = ''op2'', errorRemoteState = Some exampleNote\<rparr> deletedLocally)))
     ''op2'' = Inr None
   \<and> getDoc (stateManager (snd (handleFailedOperation (\<lambda>c. Resolved (serverWins c))
       \<lparr>operationId = ''op1'', errorRemoteState = Some exampleNote\<rparr> draftedLocally)))
     ''notes'' (IdNum 1)
     = Some [(''id'', JNum 1), (''title'', JStr ''A''), (''draft'', JBool True), (''body'', JStr ''x'')]"
  by (simp add: example_defs engine_defs)

section \<open>Frames of the steps of a cycle\<close>

lemma forEach_preserves:
  "(\<And>x s. P s \<Longrightarrow> P (snd (body x s))) \<Longrightarrow> P s \<Longrightarrow> P (snd (forEach body xs s))"
proof (induction xs arbitrary: s)
  case Nil
  then show ?case by simp
next
  case (Cons x xs)
  show ?case
  proof (cases "body x s")
    case (Pair out s1)
    have p1: "P s1" using Cons.prems(1)[OF Cons.prems(2), of x] Pair by simp
    show ?thesis
    proof (cases out)
      case Returned
      then show ?thesis using Pair Cons.IH[OF Cons.prems(1) p1] by simp
    next
      case (Threw err)
      then show ?thesis using Pair p1 by simp
    qed
  qed
qed

lemma forEach_preserves_on:
  "(\<And>x s. x \<in> set xs \<Longrightarrow> P s \<Longrightarrow> P (snd (body x s))) \<Longrightarrow> P s \<Longrightarrow>
   P (snd (forEach body xs s))"
proof (induction xs arbitrary: s)
  case Nil
  then show ?case by simp
next
  case (Cons x xs)
  show ?case
  proof (cases "body x s")
    case (Pair out s1)
    have p1: "P s1" using Cons.prems(1)[of x s] Cons.prems(2) Pair by simp
    have step: "\<And>y t. y \<in> set xs \<Longrightarrow> P t \<Longrightarrow> P (snd (body y t))"
      using Cons.prems(1) by simp
    show ?thesis
    proof (cases out)
      case Returned
      then show ?thesis using Pair Cons.IH[OF step p1] by simp
    next
      case (Threw err)
      then show ?thesis using Pair p1 by simp
    qed
  qed
qed

lemma applyChange_frame:
  "apiCalls (snd (applyChange op e)) = apiCalls e
   \<and> lastPulledAt (snd (applyChange op e)) = lastPulledAt e"
  by (cases "op_type op") (auto simp: applyChange_def Let_def split: sum.splits)

lemma applyChange_queue:
  "collection op \<noteq> SYNC_QUEUE_STORE_NAME \<Longrightarrow>
     queueStore (persistence (snd (applyChange op e))) = queueStore (persistence e)
   \<and> queueDocuments (persistence (snd (applyChange op e))) = queueDocuments (persistence e)"
  by (cases "op_type op")
     (auto simp: applyChange_def Let_def persistence_set_def persistence_delete_def
        split: option.splits)

lemma applyChange_tables_other:
  "collection op \<noteq> s \<Longrightarrow>
   tables (persistence (snd (applyChange op e))) s = tables (persistence e) s"
  by (cases "op_type op")
     (auto simp: applyChange_def Let_def persistence_set_def persistence_delete_def
        split: option.splits)

lemma dequeueOp_frame:
  "apiCalls (snd (dequeueOp opId e)) = apiCalls e
   \<and> lastPulledAt (snd (dequeueOp opId e)) = lastPulledAt e"
  by (auto simp: dequeueOp_def split: sum.splits)

lemma handleFailedOperation_frame:
  "apiCalls (snd (handleFailedOperation strategy f e)) = apiCalls e
   \<and> lastPulledAt (snd (handleFailedOperation strategy f e)) = lastPulledAt e"
  by (auto simp: handleFailedOperation_def dequeueOp_def Let_def
        split: sum.splits option.splits promise.splits resolution.splits)

lemma saveLastPulledAt_frame:
  "queueStore (persistence (snd (saveLastPulledAt e))) = queueStore (persistence e)
   \<and> queueDocuments (persistence (snd (saveLastPulledAt e))) = queueDocuments (persistence e)
   \<and> stateManager (snd (saveLastPulledAt e)) = stateManager e
   \<and> apiCalls (snd (saveLastPulledAt e)) = apiCalls e
   \<and> lastPulledAt (snd (saveLastPulledAt e)) = lastPulledAt e"
  by (auto simp: saveLastPulledAt_def persistence_set_def metaStore_def SYNC_QUEUE_STORE_NAME_def
        split: option.splits)

lemma forEach_applyChange_frame:
  "apiCalls (snd (forEach applyChange ops e)) = apiCalls e
   \<and> lastPulledAt (snd (forEach applyChange ops e)) = lastPulledAt e"
  by (rule forEach_preserves[where P = "\<lambda>s. apiCalls s = apiCalls e \<and> lastPulledAt s = lastPulledAt e"])
     (simp_all add: applyChange_frame)

lemma forEach_applyChange_queue:
  "\<forall>op\<in>set ops. collection op \<noteq> SYNC_QUEUE_STORE_NAME \<Longrightarrow>
     queueStore (persistence (snd (forEach applyChange ops e))) = queueStore (persistence e)
   \<and> queueDocuments (persistence (snd (forEach applyChange ops e))) = queueDocuments (persistence e)"
  by (rule forEach_preserves_on[where P = "\<lambda>s. queueStore (persistence s) = queueStore (persistence e)
            \<and> queueDocuments (persistence s) = queueDocuments (persistence e)"])
     (simp_all add: applyChange_queue)

lemma forEach_applyChange_tables_other:
  "\<forall>op\<in>set ops. collection op \<noteq> s \<Longrightarrow>
   tables (persistence (snd (forEach applyChange ops e))) s = tables (persistence e) s"
  by (rule forEach_preserves_on[where P = "\<lambda>s'. tables (persistence s') s = tables (persistence e) s"])
     (simp_all add: applyChange_tables_other)

text \<open>The try block of the pull phase, case by case.\<close>

lemma pullChangesTry_Rejected:
  "pull api (lastPulledAt e) = Rejected \<Longrightarrow>
   pullChangesTry api e
   = (Threw NetworkFailure, e\<lparr>apiCalls := apiCalls e @ [PullCall (lastPulledAt e)]\<rparr>)"
  by (simp add: pullChangesTry_def Let_def)

lemma pullChangesTry_empty:
  "pull api (lastPulledAt e) = Resolved r \<Longrightarrow> changes r = [] \<Longrightarrow>
   pullChangesTry api e = (Returned, e\<lparr>apiCalls := apiCalls e @ [PullCall (lastPulledAt e)]\<rparr>)"
  by (simp add: pullChangesTry_def Let_def)

lemma pullChangesTry_Threw:
  "pull api (lastPulledAt e) = Resolved r \<Longrightarrow> changes r \<noteq> [] \<Longrightarrow>
   forEach applyChange (changes r) (e\<lparr>apiCalls := apiCalls e @ [PullCall (lastPulledAt e)]\<rparr>)
     = (Threw err, e2) \<Longrightarrow>
   pullChangesTry api e = (Threw err, e2)"
  by (simp add: pullChangesTry_def Let_def)

lemma pullChangesTry_applied:
  "pull api (lastPulledAt e) = Resolved r \<Longrightarrow> changes r \<noteq> [] \<Longrightarrow>
   forEach applyChange (changes r) (e\<lparr>apiCalls := apiCalls e @ [PullCall (lastPulledAt e)]\<rparr>)
     = (Returned, e2) \<Longrightarrow>
   pullChangesTry api e = saveLastPulledAt (e2\<lparr>lastPulledAt := Some (pull_timestamp r)\<rparr>)"
  by (simp add: pullChangesTry_def Let_def)

lemma pullChangesTry_apiCalls:
  "apiCalls (snd (pullChangesTry api e)) = apiCalls e @ [PullCall (lastPulledAt e)]"
proof (cases "pull api (lastPulledAt e)")
  case Rejected
  then show ?thesis by (simp add: pullChangesTry_Rejected)
next
  case (Resolved r)
  let ?e1 = "e\<lparr>apiCalls := apiCalls e @ [PullCall (lastPulledAt e)]\<rparr>"
  show ?thesis
  proof (cases "changes r = []")
    case True
    then show ?thesis using Resolved by (simp add: pullChangesTry_empty)
  next
    case False
    obtain out e2 where f: "forEach applyChange (changes r) ?e1 = (out, e2)"
      by (cases "forEach applyChange (changes r) ?e1")
    have a: "apiCalls e2 = apiCalls e @ [PullCall (lastPulledAt e)]"
      using forEach_applyChange_frame[of "changes r" ?e1] f by simp
    show ?thesis
    proof (cases out)
      case Returned
      then show ?thesis
        using pullChangesTry_applied[OF Resolved False] f a
          saveLastPulledAt_frame[of "e2\<lparr>lastPulledAt := Some (pull_timestamp r)\<rparr>"]
        by simp
    next
      case (Threw err)
      then show ?thesis using pullChangesTry_Threw[OF Resolved False] f a by simp
    qed
  qed
qed

lemma pullChangesTry_queue:
  assumes "\<forall>r. pull api (lastPulledAt e) = Resolved r \<longrightarrow>
             (\<forall>op\<in>set (changes r). collection op \<noteq> SYNC_QUEUE_STORE_NAME)"
  shows "queueStore (persistence (snd (pullChangesTry api e))) = queueStore (persistence e)
       \<and> queueDocuments (persistence (snd (pullChangesTry api e))) = queueDocuments (persistence e)"
proof (cases "pull api (lastPulledAt e)")
  case Rejected
  then show ?thesis by (simp add: pullChangesTry_Rejected)
next
  case (Resolved r)
  let ?e1 = "e\<lparr>apiCalls := apiCalls e @ [PullCall (lastPulledAt e)]\<rparr>"
  have m: "\<forall>op\<in>set (changes r). collection op \<noteq> SYNC_QUEUE_STORE_NAME"
    using assms Resolved by simp
  show ?thesis
  proof (cases "changes r = []")
    case True
    then show ?thesis using Resolved by (simp add: pullChangesTry_empty)
  next
    case False
    obtain out e2 where f: "forEach applyChange (changes r) ?e1 = (out, e2)"
      by (cases "forEach applyChange (changes r) ?e1")
    have a: "queueStore (persistence e2) = queueStore (persistence e)
             \<and> queueDocuments (persistence e2) = queueDocuments (persistence e)"
      using forEach_applyChange_queue[OF m, of ?e1] f by simp
    show ?thesis
    proof (cases out)
      case Returned
      then show ?thesis
        using pullChangesTry_applied[OF Resolved False] f a
          saveLastPulledAt_frame[of "e2\<lparr>lastPulledAt := Some (pull_timestamp r)\<rparr>"]
        by simp
    next
      case (Threw err)
      then show ?thesis using pullChangesTry_Threw[OF Resolved False] f a by simp
    qed
  qed
qed

lemma pushChanges_rejected:
  "getAll (persistence e) = Inr operations \<Longrightarrow> operations \<noteq> [] \<Longrightarrow>
   push api operations = Rejected \<Longrightarrow>
   pushChanges api strategy e = (Returned, e\<lparr>apiCalls := apiCalls e @ [PushCall operations]\<rparr>)"
  by (simp add: pushChanges_def pushChangesTry_def)

lemma pushChangesTry_frame:
  "apiCalls (snd (pushChangesTry api strategy operations e)) = apiCalls e @ [PushCall operations]
   \<and> lastPulledAt (snd (pushChangesTry api strategy operations e)) = lastPulledAt e"
proof (cases "push api operations")
  case Rejected
  then show ?thesis by (simp add: pushChangesTry_def)
next
  case (Resolved r)
  let ?e1 = "e\<lparr>apiCalls := apiCalls e @ [PushCall operations]\<rparr>"
  let ?P = "\<lambda>s. apiCalls s = apiCalls ?e1 \<and> lastPulledAt s = lastPulledAt ?e1"
  obtain out e2 where d: "forEach dequeueOp (successful r) ?e1 = (out, e2)"
    by (cases "forEach dequeueOp (successful r) ?e1")
  have "?P (snd (forEach dequeueOp (successful r) ?e1))"
    by (rule forEach_preserves[where P = ?P]) (simp_all add: dequeueOp_frame)
  then have p2: "?P e2" using d by simp
  have "?P (snd (forEach (handleFailedOperation strategy) (failed r) e2))"
    by (rule forEach_preserves[where P = ?P]) (simp_all add: handleFailedOperation_frame p2)
  then show ?thesis
    using Resolved d p2 by (cases out) (simp_all add: pushChangesTry_def)
qed

lemma pushChanges_frame:
  "getAll (persistence e) = Inr operations \<Longrightarrow>
     fst (pushChanges api strategy e) = Returned
   \<and> apiCalls (snd (pushChanges api strategy e))
       = apiCalls e @ (if operations = [] then [] else [PushCall operations])
   \<and> lastPulledAt (snd (pushChanges api strategy e)) = lastPulledAt e"
  using pushChangesTry_frame[of api strategy operations e]
  by (simp add: pushChanges_def)

section \<open>A rejected push\<close>

text \<open>
  C2, as stated, fails: after a push that the remote collaborator rejects, the cycle
  goes on with the pull phase. Here the pull is requested and its cursor persisted.
\<close>

theorem triggerSync_push_rejected_pulls:
  "push rejectingApi [exampleDeleteOp, exampleUpdateOp] = Rejected
   \<and> getAll (persistence exampleEngine) = Inr [exampleDeleteOp, exampleUpdateOp]
   \<and> apiCalls (snd (triggerSync rejectingApi exampleStrategy exampleEngine))
       = [PushCall [exampleDeleteOp, exampleUpdateOp], PullCall None]
   \<and> persistedCursor (persistence exampleEngine) = None
   \<and> persistedCursor (persistence (snd (triggerSync rejectingApi exampleStrategy exampleEngine)))
       = Some (JNum 10)"
  by (simp add: example_defs engine_defs)

text \<open>
  C2, amended. When a cycle starts with a non-empty queue and the push is rejected,
  \<open>pushChanges\<close> returns normally with storage and state manager as they were, and
  \<open>triggerSync\<close> returns normally. The cycle goes on with the pull phase: when the
  cursor is one that the log line of \<open>pullChanges\<close> can print, the pull request is
  made with it. When no pulled change names the store of the queue, the queue after
  the cycle is the queue before it.
\<close>

theorem triggerSync_push_rejected:
  "\<not> isSyncing e \<Longrightarrow> isConnected (network e) \<Longrightarrow>
   getAll (persistence e) = Inr operations \<Longrightarrow> operations \<noteq> [] \<Longrightarrow>
   push api operations = Rejected \<Longrightarrow>
     fst (triggerSync api strategy e) = Returned
   \<and> fst (pushChanges api strategy (e\<lparr>isSyncing := True\<rparr>)) = Returned
   \<and> persistence (snd (pushChanges api strategy (e\<lparr>isSyncing := True\<rparr>))) = persistence e
   \<and> stateManager (snd (pushChanges api strategy (e\<lparr>isSyncing := True\<rparr>))) = stateManager e
   \<and> (\<not> logLineThrows (lastPulledAt e) \<longrightarrow>
        apiCalls (snd (triggerSync api strategy e))
          = apiCalls e @ [PushCall operations, PullCall (lastPulledAt e)])
   \<and> ((\<forall>r. pull api (lastPulledAt e) = Resolved r \<longrightarrow>
             (\<forall>op\<in>set (changes r). collection op \<noteq> SYNC_QUEUE_STORE_NAME)) \<longrightarrow>
          queueStore (persistence (snd (triggerSync api strategy e))) = queueStore (persistence e)
        \<and> queueDocuments (persistence (snd (triggerSync api strategy e)))
            = queueDocuments (persistence e)
        \<and> getAll (persistence (snd (triggerSync api strategy e))) = Inr operations)"
proof -
  assume a: "\<not> isSyncing e" "isConnected (network e)" "getAll (persistence e) = Inr operations"
    "operations \<noteq> []" "push api operations = Rejected"
  let ?e1 = "e\<lparr>isSyncing := True\<rparr>"
  let ?e2 = "?e1\<lparr>apiCalls := apiCalls ?e1 @ [PushCall operations]\<rparr>"
  have p: "pushChanges api strategy ?e1 = (Returned, ?e2)"
    using a by (simp add: pushChanges_rejected)
  have t: "triggerSync api strategy e = (Returned, (snd (pullChanges api ?e2))\<lparr>isSyncing := False\<rparr>)"
    using a p by (simp add: triggerSync_def Let_def)
  have calls: "\<not> logLineThrows (lastPulledAt e) \<longrightarrow>
        apiCalls (snd (triggerSync api strategy e))
          = apiCalls e @ [PushCall operations, PullCall (lastPulledAt e)]"
    using t pullChangesTry_apiCalls[of api ?e2] by (simp add: pullChanges_def)
  have queue: "(\<forall>r. pull api (lastPulledAt e) = Resolved r \<longrightarrow>
             (\<forall>op\<in>set (changes r). collection op \<noteq> SYNC_QUEUE_STORE_NAME)) \<longrightarrow>
          queueStore (persistence (snd (triggerSync api strategy e))) = queueStore (persistence e)
        \<and> queueDocuments (persistence (snd (triggerSync api strategy e)))
            = queueDocuments (persistence e)
        \<and> getAll (persistence (snd (triggerSync api strategy e))) = Inr operations"
  proof
    assume h: "\<forall>r. pull api (lastPulledAt e) = Resolved r \<longrightarrow>
             (\<forall>op\<in>set (changes r). collection op \<noteq> SYNC_QUEUE_STORE_NAME)"
    then have h2: "\<forall>r. pull api (lastPulledAt ?e2) = Resolved r \<longrightarrow>
             (\<forall>op\<in>set (changes r). collection op \<noteq> SYNC_QUEUE_STORE_NAME)"
      by simp
    have q: "queueStore (persistence (snd (pullChanges api ?e2))) = queueStore (persistence e)
           \<and> queueDocuments (persistence (snd (pullChanges api ?e2))) = queueDocuments (persistence e)"
      using pullChangesTry_queue[OF h2] by (simp add: pullChanges_def)
    then have "getAll (persistence (snd (pullChanges api ?e2))) = getAll (persistence e)"
      by (simp add: getAll_def)
    then show "queueStore (persistence (snd (triggerSync api strategy e))) = queueStore (persistence e)
        \<and> queueDocuments (persistence (snd (triggerSync api strategy e)))
            = queueDocuments (persistence e)
        \<and> getAll (persistence (snd (triggerSync api strategy e))) = Inr operations"
      using t q a(3) by simp
  qed
  have first: "fst (triggerSync api strategy e) = Returned
   \<and> fst (pushChanges api strategy (e\<lparr>isSyncing := True\<rparr>)) = Returned
   \<and> persistence (snd (pushChanges api strategy (e\<lparr>isSyncing := True\<rparr>))) = persistence e
   \<and> stateManager (snd (pushChanges api strategy (e\<lparr>isSyncing := True\<rparr>))) = stateManager e"
    using p t by simp
  from first calls queue show ?thesis by (intro conjI) (erule conjE | assumption)+
qed

theorem triggerSync_push_rejected_witness:
  "\<not> isSyncing exampleEngine \<and> isConnected (network exampleEngine)
   \<and> getAll (persistence exampleEngine) = Inr [exampleDeleteOp, exampleUpdateOp]
   \<and> push rejectingApi [exampleDeleteOp, exampleUpdateOp] = Rejected
   \<and> fst (triggerSync rejectingApi exampleStrategy exampleEngine) = Returned
   \<and> apiCalls (snd (triggerSync rejectingApi exampleStrategy exampleEngine))
       = [PushCall [exampleDeleteOp, exampleUpdateOp], PullCall None]
   \<and> queueStore (persistence (snd (triggerSync rejectingApi exampleStrategy exampleEngine)))
       = Some [(''op1'', exampleUpdateOp), (''op2'', exampleDeleteOp)]"
proof -
  have h1: "\<not> isSyncing exampleEngine" by (simp add: exampleEngine_def)
  have h2: "isConnected (network exampleEngine)"
    by (simp add: exampleEngine_def exampleNetwork_def isConnected_def)
  have h3: "getAll (persistence exampleEngine) = Inr [exampleDeleteOp, exampleUpdateOp]"
    by (simp add: example_defs getAll_def arraySort_def)
  have h4: "[exampleDeleteOp, exampleUpdateOp] \<noteq> []" by simp
  have h5: "push rejectingApi [exampleDeleteOp, exampleUpdateOp] = Rejected"
    by (simp add: rejectingApi_def)
  have h6: "\<not> logLineThrows (lastPulledAt exampleEngine)"
    by (simp add: exampleEngine_def logLineThrows_def)
  have h7: "\<forall>r. pull rejectingApi (lastPulledAt exampleEngine) = Resolved r \<longrightarrow>
             (\<forall>op\<in>set (changes r). collection op \<noteq> SYNC_QUEUE_STORE_NAME)"
    by (auto simp: rejectingApi_def pulledUpdate_def SYNC_QUEUE_STORE_NAME_def)
  have q: "queueStore (persistence exampleEngine)
           = Some [(''op1'', exampleUpdateOp), (''op2'', exampleDeleteOp)]"
    by (simp add: exampleEngine_def examplePersistence_def)
  have c: "apiCalls exampleEngine = [] \<and> lastPulledAt exampleEngine = None"
    by (simp add: exampleEngine_def)
  note T = triggerSync_push_rejected [OF h1 h2 h3 h4 h5, of exampleStrategy]
  have w1: "fst (triggerSync rejectingApi exampleStrategy exampleEngine) = Returned"
    using T by blast
  have w2: "apiCalls (snd (triggerSync rejectingApi exampleStrategy exampleEngine))
       = [PushCall [exampleDeleteOp, exampleUpdateOp], PullCall None]"
    using T h6 c by simp
  have w3: "queueStore (persistence (snd (triggerSync rejectingApi exampleStrategy exampleEngine)))
       = Some [(''op1'', exampleUpdateOp), (''op2'', exampleDeleteOp)]"
    using T h7 q by metis
  show ?thesis using h1 h2 h3 h5 w1 w2 w3 by simp
qed

section \<open>The pull cursor\<close>

lemma persistedCursor_tables:
  "tables p metaStore = tables p' metaStore \<Longrightarrow> persistedCursor p = persistedCursor p'"
  by (simp add: persistedCursor_def persistence_get_def documentRows_def metaStore_def
        SYNC_QUEUE_STORE_NAME_def)

lemma applyChange_Returned:
  assumes "applyChange op e = (Returned, e')"
  shows "stateManager e' = (\<lambda>op sm. case op_type op of
                  Delete \<Rightarrow> deleteDoc sm (collection op) (docId op)
                | _ \<Rightarrow> updateDoc sm (collection op) (docId op) (payload op)) op (stateManager e)
       \<and> persistence e' = (\<lambda>op p. case (case op_type op of
                           Delete \<Rightarrow> persistence_delete p (collection op) (docId op)
                         | _ \<Rightarrow> persistence_set p (collection op) (payload op)) of
                    Inl err \<Rightarrow> p
                  | Inr p' \<Rightarrow> p') op (persistence e)"
  using assms
  by (cases "op_type op") (auto simp: applyChange_def Let_def split: sum.splits)

lemma forEach_applyChange_Returned:
  "forEach applyChange ops e = (Returned, e2) \<Longrightarrow>
     stateManager e2 = fold (\<lambda>op sm. case op_type op of
                  Delete \<Rightarrow> deleteDoc sm (collection op) (docId op)
                | _ \<Rightarrow> updateDoc sm (collection op) (docId op) (payload op)) ops (stateManager e)
   \<and> persistence e2 = fold (\<lambda>op p. case (case op_type op of
                           Delete \<Rightarrow> persistence_delete p (collection op) (docId op)
                         | _ \<Rightarrow> persistence_set p (collection op) (payload op)) of
                    Inl err \<Rightarrow> p
                  | Inr p' \<Rightarrow> p') ops (persistence e)"
proof (induction ops arbitrary: e)
  case Nil
  then show ?case by simp
next
  case (Cons op ops)
  obtain out e1 where a: "applyChange op e = (out, e1)" by (cases "applyChange op e")
  show ?case
  proof (cases out)
    case (Threw err)
    then show ?thesis using Cons.prems a by simp
  next
    case Returned
    then have f: "forEach applyChange ops e1 = (Returned, e2)" using Cons.prems a by simp
    have s: "stateManager e1 = (\<lambda>op sm. case op_type op of
                  Delete \<Rightarrow> deleteDoc sm (collection op) (docId op)
                | _ \<Rightarrow> updateDoc sm (collection op) (docId op) (payload op)) op (stateManager e)
           \<and> persistence e1 = (\<lambda>op p. case (case op_type op of
                           Delete \<Rightarrow> persistence_delete p (collection op) (docId op)
                         | _ \<Rightarrow> persistence_set p (collection op) (payload op)) of
                    Inl err \<Rightarrow> p
                  | Inr p' \<Rightarrow> p') op (persistence e)"
      using applyChange_Returned[of op e e1] a Returned by simp
    show ?thesis using Cons.IH[OF f] s by simp
  qed
qed

lemma saveLastPulledAt_Returned:
  assumes "fst (saveLastPulledAt e) = Returned" and "lastPulledAt e = Some t"
  shows "persistence_set (persistence e) metaStore
           (Some [(''id'', JStr ''lastPulledAt''), (''value'', JNum t)])
         = Inr (persistence (snd (saveLastPulledAt e)))
       \<and> persistedCursor (persistence (snd (saveLastPulledAt e))) = Some (JNum t)
       \<and> lastPulledAt (snd (saveLastPulledAt e)) = Some t
       \<and> stateManager (snd (saveLastPulledAt e)) = stateManager e"
proof -
  let ?cursorRow = "[(''id'', JStr ''lastPulledAt''), (''value'', JNum t)]"
  obtain p where s: "persistence_set (persistence e) metaStore (Some ?cursorRow) = Inr p"
    using assms by (auto simp: saveLastPulledAt_def split: sum.splits)
  have r: "saveLastPulledAt e = (Returned, e\<lparr>persistence := p\<rparr>)"
    using s assms(2) by (simp add: saveLastPulledAt_def)
  have k: "idOf ?cursorRow = Some (IdStr ''lastPulledAt'')" by (simp add: idOf_def)
  obtain rows where d: "documentRows (persistence e) metaStore = Some rows"
    using s by (auto simp: persistence_set_def split: option.splits)
  have "documentRows p metaStore = Some (AList.update (IdStr ''lastPulledAt'') ?cursorRow rows)"
    using documentRows_set[OF s k d] .
  then have "persistedCursor p = Some (JNum t)"
    by (simp add: persistedCursor_def persistence_get_def update_conv')
  then show ?thesis using r s assms(2) by simp
qed

lemma saveLastPulledAt_Threw:
  "fst (saveLastPulledAt e) \<noteq> Returned \<Longrightarrow> snd (saveLastPulledAt e) = e"
  by (auto simp: saveLastPulledAt_def split: sum.splits)

lemma pullChangesTry_success:
  assumes "pull api (lastPulledAt e) = Resolved r" and "changes r \<noteq> []"
    and "fst (pullChangesTry api e) = Returned"
  shows "fst (forEach applyChange (changes r)
               (e\<lparr>apiCalls := apiCalls e @ [PullCall (lastPulledAt e)]\<rparr>)) = Returned
      \<and> stateManager (snd (pullChangesTry api e))
          = fold (\<lambda>op sm. case op_type op of
                  Delete \<Rightarrow> deleteDoc sm (collection op) (docId op)
                | _ \<Rightarrow> updateDoc sm (collection op) (docId op) (payload op))
              (changes r) (stateManager e)
      \<and> persistence_set
            (fold (\<lambda>op p. case (case op_type op of
                           Delete \<Rightarrow> persistence_delete p (collection op) (docId op)
                         | _ \<Rightarrow> persistence_set p (collection op) (payload op)) of
                    Inl err \<Rightarrow> p
                  | Inr p' \<Rightarrow> p')
               (changes r) (persistence e))
            metaStore (Some [(''id'', JStr ''lastPulledAt''), (''value'', JNum (pull_timestamp r))])
          = Inr (persistence (snd (pullChangesTry api e)))
      \<and> persistedCursor (persistence (snd (pullChangesTry api e))) = Some (JNum (pull_timestamp r))
      \<and> lastPulledAt (snd (pullChangesTry api e)) = Some (pull_timestamp r)"
proof -
  let ?e1 = "e\<lparr>apiCalls := apiCalls e @ [PullCall (lastPulledAt e)]\<rparr>"
  obtain out e2 where f: "forEach applyChange (changes r) ?e1 = (out, e2)"
    by (cases "forEach applyChange (changes r) ?e1")
  show ?thesis
  proof (cases out)
    case (Threw err)
    then show ?thesis using pullChangesTry_Threw[OF assms(1,2)] f assms(3) by simp
  next
    case Returned
    let ?e3 = "e2\<lparr>lastPulledAt := Some (pull_timestamp r)\<rparr>"
    have eq: "pullChangesTry api e = saveLastPulledAt ?e3"
      using pullChangesTry_applied[OF assms(1,2)] f Returned by simp
    have ok: "fst (saveLastPulledAt ?e3) = Returned" using assms(3) eq by simp
    have ap: "stateManager e2 = fold (\<lambda>op sm. case op_type op of
                  Delete \<Rightarrow> deleteDoc sm (collection op) (docId op)
                | _ \<Rightarrow> updateDoc sm (collection op) (docId op) (payload op)) (changes r) (stateManager e)
            \<and> persistence e2 = fold (\<lambda>op p. case (case op_type op of
                           Delete \<Rightarrow> persistence_delete p (collection op) (docId op)
                         | _ \<Rightarrow> persistence_set p (collection op) (payload op)) of
                    Inl err \<Rightarrow> p
                  | Inr p' \<Rightarrow> p') (changes r) (persistence e)"
      using forEach_applyChange_Returned[of "changes r" ?e1 e2] f Returned by simp
    show ?thesis
      using saveLastPulledAt_Returned[OF ok, of "pull_timestamp r"] eq f Returned ap by simp
  qed
qed

lemma pullChangesTry_failure:
  assumes "fst (pullChangesTry api e) \<noteq> Returned"
    and "\<forall>r. pull api (lastPulledAt e) = Resolved r \<longrightarrow>
             (\<forall>op\<in>set (changes r). collection op \<noteq> metaStore)"
  shows "persistedCursor (persistence (snd (pullChangesTry api e))) = persistedCursor (persistence e)"
proof (cases "pull api (lastPulledAt e)")
  case Rejected
  then show ?thesis by (simp add: pullChangesTry_Rejected)
next
  case (Resolved r)
  let ?e1 = "e\<lparr>apiCalls := apiCalls e @ [PullCall (lastPulledAt e)]\<rparr>"
  have m: "\<forall>op\<in>set (changes r). collection op \<noteq> metaStore" using assms(2) Resolved by simp
  show ?thesis
  proof (cases "changes r = []")
    case True
    then show ?thesis using Resolved by (simp add: pullChangesTry_empty)
  next
    case False
    obtain out e2 where f: "forEach applyChange (changes r) ?e1 = (out, e2)"
      by (cases "forEach applyChange (changes r) ?e1")
    have t2: "tables (persistence e2) metaStore = tables (persistence e) metaStore"
      using forEach_applyChange_tables_other[OF m, of ?e1] f by simp
    show ?thesis
    proof (cases out)
      case (Threw err)
      then have "snd (pullChangesTry api e) = e2"
        using pullChangesTry_Threw[OF Resolved False] f by simp
      then show ?thesis using persistedCursor_tables[OF t2] by simp
    next
      case Returned
      let ?e3 = "e2\<lparr>lastPulledAt := Some (pull_timestamp r)\<rparr>"
      have eq: "pullChangesTry api e = saveLastPulledAt ?e3"
        using pullChangesTry_applied[OF Resolved False] f Returned by simp
      have "fst (saveLastPulledAt ?e3) \<noteq> Returned" using assms(1) eq by simp
      then have "snd (pullChangesTry api e) = ?e3"
        using saveLastPulledAt_Threw eq by simp
      then show ?thesis using persistedCursor_tables[OF t2] by simp
    qed
  qed
qed

text \<open>
  C1, as stated, fails: of two successful pulls, the second returns no change and the
  cursor 20; the persisted cursor stays at the first pull's 10.
\<close>

theorem pull_empty_keeps_cursor:
  "fst (pullChangesTry acceptingApi exampleEngine) = Returned
   \<and> pull acceptingApi (lastPulledAt exampleEngine)
       = Resolved \<lparr>changes = [pulledUpdate], pull_timestamp = 10\<rparr>
   \<and> pull emptyPullApi (lastPulledAt (snd (pullChanges acceptingApi exampleEngine)))
       = Resolved \<lparr>changes = [], pull_timestamp = 20\<rparr>
   \<and> fst (pullChangesTry emptyPullApi (snd (pullChanges acceptingApi exampleEngine))) = Returned
   \<and> persistedCursor (persistence
         (snd (pullChanges emptyPullApi (snd (pullChanges acceptingApi exampleEngine)))))
       = Some (JNum 10)"
  by (simp add: example_defs engine_defs)

text \<open>
  C1, amended. The cursor is one that the log line of \<open>pullChanges\<close> can print. A
  pull that returns a non-empty batch and ends without a throw has applied every
  change of the batch, in order, to the state manager (\<open>updateDoc\<close>, \<open>deleteDoc\<close>) and
  to storage (\<open>set\<close>, \<open>delete\<close>), and has then written the cursor that the
  collaborator returned into the storage so obtained. A pull that returns an empty
  batch leaves storage, state manager and cursor as they were. A pull that throws,
  whose changes do not name the store of sync metadata, leaves the persisted cursor
  as it was. After two pulls of the first kind the persisted cursor is the second
  one's.
\<close>

theorem pull_cursor:
  "(\<not> logLineThrows (lastPulledAt e)
      \<and> pull api (lastPulledAt e) = Resolved r \<and> changes r \<noteq> []
      \<and> fst (pullChangesTry api e) = Returned \<longrightarrow>
        fst (forEach applyChange (changes r)
               (e\<lparr>apiCalls := apiCalls e @ [PullCall (lastPulledAt e)]\<rparr>)) = Returned
      \<and> stateManager (snd (pullChanges api e))
          = fold (\<lambda>op sm. case op_type op of
                  Delete \<Rightarrow> deleteDoc sm (collection op) (docId op)
                | _ \<Rightarrow> updateDoc sm (collection op) (docId op) (payload op))
              (changes r) (stateManager e)
      \<and> persistence_set
            (fold (\<lambda>op p. case (case op_type op of
                           Delete \<Rightarrow> persistence_delete p (collection op) (docId op)
                         | _ \<Rightarrow> persistence_set p (collection op) (payload op)) of
                    Inl err \<Rightarrow> p
                  | Inr p' \<Rightarrow> p')
               (changes r) (persistence e))
            metaStore (Some [(''id'', JStr ''lastPulledAt''), (''value'', JNum (pull_timestamp r))])
          = Inr (persistence (snd (pullChanges api e)))
      \<and> persistedCursor (persistence (snd (pullChanges api e))) = Some (JNum (pull_timestamp r))
      \<and> lastPulledAt (snd (pullChanges api e)) = Some (pull_timestamp r))
   \<and> (pull api (lastPulledAt e) = Resolved r \<and> changes r = [] \<longrightarrow>
        persistence (snd (pullChanges api e)) = persistence e
      \<and> stateManager (snd (pullChanges api e)) = stateManager e
      \<and> lastPulledAt (snd (pullChanges api e)) = lastPulledAt e)
   \<and> ((logLineThrows (lastPulledAt e) \<or> fst (pullChangesTry api e) \<noteq> Returned)
      \<and> (\<forall>r'. pull api (lastPulledAt e) = Resolved r' \<longrightarrow>
              (\<forall>op\<in>set (changes r'). collection op \<noteq> metaStore)) \<longrightarrow>
        persistedCursor (persistence (snd (pullChanges api e))) = persistedCursor (persistence e))
   \<and> (\<not> logLineThrows (lastPulledAt e)
      \<and> pull api (lastPulledAt e) = Resolved r \<and> changes r \<noteq> []
      \<and> fst (pullChangesTry api e) = Returned
      \<and> \<not> logLineThrows (Some (pull_timestamp r))
      \<and> pull api2 (Some (pull_timestamp r)) = Resolved r2 \<and> changes r2 \<noteq> []
      \<and> fst (pullChangesTry api2 (snd (pullChanges api e))) = Returned \<longrightarrow>
        persistedCursor (persistence (snd (pullChanges api2 (snd (pullChanges api e)))))
          = Some (JNum (pull_timestamp r2)))"
proof -
  have c1: "(\<not> logLineThrows (lastPulledAt e)
      \<and> pull api (lastPulledAt e) = Resolved r \<and> changes r \<noteq> []
      \<and> fst (pullChangesTry api e) = Returned \<longrightarrow>
        fst (forEach applyChange (changes r)
               (e\<lparr>apiCalls := apiCalls e @ [PullCall (lastPulledAt e)]\<rparr>)) = Returned
      \<and> stateManager (snd (pullChanges api e))
          = fold (\<lambda>op sm. case op_type op of
                  Delete \<Rightarrow> deleteDoc sm (collection op) (docId op)
                | _ \<Rightarrow> updateDoc sm (collection op) (docId op) (payload op))
              (changes r) (stateManager e)
      \<and> persistence_set
            (fold (\<lambda>op p. case (case op_type op of
                           Delete \<Rightarrow> persistence_delete p (collection op) (docId op)
                         | _ \<Rightarrow> persistence_set p (collection op) (payload op)) of
                    Inl err \<Rightarrow> p
                  | Inr p' \<Rightarrow> p')
               (changes r) (persistence e))
            metaStore (Some [(''id'', JStr ''lastPulledAt''), (''value'', JNum (pull_timestamp r))])
          = Inr (persistence (snd (pullChanges api e)))
      \<and> persistedCursor (persistence (snd (pullChanges api e))) = Some (JNum (pull_timestamp r))
      \<and> lastPulledAt (snd (pullChanges api e)) = Some (pull_timestamp r))"
  proof
    assume a: "\<not> logLineThrows (lastPulledAt e)
      \<and> pull api (lastPulledAt e) = Resolved r \<and> changes r \<noteq> []
      \<and> fst (pullChangesTry api e) = Returned"
    then have p: "pullChanges api e = (Returned, snd (pullChangesTry api e))"
      by (simp add: pullChanges_def)
    show "fst (forEach applyChange (changes r)
               (e\<lparr>apiCalls := apiCalls e @ [PullCall (lastPulledAt e)]\<rparr>)) = Returned
      \<and> stateManager (snd (pullChanges api e))
          = fold (\<lambda>op sm. case op_type op of
                  Delete \<Rightarrow> deleteDoc sm (collection op) (docId op)
                | _ \<Rightarrow> updateDoc sm (collection op) (docId op) (payload op))
              (changes r) (stateManager e)
      \<and> persistence_set
            (fold (\<lambda>op p. case (case op_type op of
                           Delete \<Rightarrow> persistence_delete p (collection op) (docId op)
                         | _ \<Rightarrow> persistence_set p (collection op) (payload op)) of
                    Inl err \<Rightarrow> p
                  | Inr p' \<Rightarrow> p')
               (changes r) (persistence e))
            metaStore (Some [(''id'', JStr ''lastPulledAt''), (''value'', JNum (pull_timestamp r))])
          = Inr (persistence (snd (pullChanges api e)))
      \<and> persistedCursor (persistence (snd (pullChanges api e))) = Some (JNum (pull_timestamp r))
      \<and> lastPulledAt (snd (pullChanges api e)) = Some (pull_timestamp r)"
      using pullChangesTry_success[of api e r] a p by simp
  qed
  have c2: "(pull api (lastPulledAt e) = Resolved r \<and> changes r = [] \<longrightarrow>
        persistence (snd (pullChanges api e)) = persistence e
      \<and> stateManager (snd (pullChanges api e)) = stateManager e
      \<and> lastPulledAt (snd (pullChanges api e)) = lastPulledAt e)"
  proof
    assume a: "pull api (lastPulledAt e) = Resolved r \<and> changes r = []"
    show "persistence (snd (pullChanges api e)) = persistence e
      \<and> stateManager (snd (pullChanges api e)) = stateManager e
      \<and> lastPulledAt (snd (pullChanges api e)) = lastPulledAt e"
      using pullChangesTry_empty[of api e r] a by (simp add: pullChanges_def)
  qed
  have c3: "((logLineThrows (lastPulledAt e) \<or> fst (pullChangesTry api e) \<noteq> Returned)
      \<and> (\<forall>r'. pull api (lastPulledAt e) = Resolved r' \<longrightarrow>
              (\<forall>op\<in>set (changes r'). collection op \<noteq> metaStore)) \<longrightarrow>
        persistedCursor (persistence (snd (pullChanges api e))) = persistedCursor (persistence e))"
  proof
    assume a: "(logLineThrows (lastPulledAt e) \<or> fst (pullChangesTry api e) \<noteq> Returned)
      \<and> (\<forall>r'. pull api (lastPulledAt e) = Resolved r' \<longrightarrow>
              (\<forall>op\<in>set (changes r'). collection op \<noteq> metaStore))"
    show "persistedCursor (persistence (snd (pullChanges api e))) = persistedCursor (persistence e)"
    proof (cases "logLineThrows (lastPulledAt e)")
      case True
      then show ?thesis by (simp add: pullChanges_def)
    next
      case False
      then have "fst (pullChangesTry api e) \<noteq> Returned" using a by blast
      then show ?thesis
        using pullChangesTry_failure[of api e] a False by (simp add: pullChanges_def)
    qed
  qed
  have c4: "(\<not> logLineThrows (lastPulledAt e)
      \<and> pull api (lastPulledAt e) = Resolved r \<and> changes r \<noteq> []
      \<and> fst (pullChangesTry api e) = Returned
      \<and> \<not> logLineThrows (Some (pull_timestamp r))
      \<and> pull api2 (Some (pull_timestamp r)) = Resolved r2 \<and> changes r2 \<noteq> []
      \<and> fst (pullChangesTry api2 (snd (pullChanges api e))) = Returned \<longrightarrow>
        persistedCursor (persistence (snd (pullChanges api2 (snd (pullChanges api e)))))
          = Some (JNum (pull_timestamp r2)))"
  proof
    assume a: "\<not> logLineThrows (lastPulledAt e)
      \<and> pull api (lastPulledAt e) = Resolved r \<and> changes r \<noteq> []
      \<and> fst (pullChangesTry api e) = Returned
      \<and> \<not> logLineThrows (Some (pull_timestamp r))
      \<and> pull api2 (Some (pull_timestamp r)) = Resolved r2 \<and> changes r2 \<noteq> []
      \<and> fst (pullChangesTry api2 (snd (pullChanges api e))) = Returned"
    let ?e1 = "snd (pullChanges api e)"
    have l: "lastPulledAt ?e1 = Some (pull_timestamp r)"
      using a pullChangesTry_success[of api e r] by (simp add: pullChanges_def)
    have s: "pull api2 (lastPulledAt ?e1) = Resolved r2" using a l by simp
    have n: "\<not> logLineThrows (lastPulledAt ?e1)" using a l by simp
    have "persistedCursor (persistence (snd (pullChangesTry api2 ?e1)))
          = Some (JNum (pull_timestamp r2))"
      using pullChangesTry_success[OF s] a by blast
    then show "persistedCursor (persistence (snd (pullChanges api2 (snd (pullChanges api e)))))
          = Some (JNum (pull_timestamp r2))"
      using n by (simp add: pullChanges_def)
  qed
  from c1 c2 c3 c4 show ?thesis by (intro conjI) assumption+
qed

theorem pull_cursor_witness:
  "pull acceptingApi (lastPulledAt exampleEngine)
       = Resolved \<lparr>changes = [pulledUpdate], pull_timestamp = 10\<rparr>
   \<and> fst (pullChangesTry acceptingApi exampleEngine) = Returned
   \<and> persistedCursor (persistence (snd (pullChanges acceptingApi exampleEngine))) = Some (JNum 10)
   \<and> getDoc (stateManager (snd (pullChanges acceptingApi exampleEngine))) ''notes'' (IdNum 1)
       = Some [(''id'', JNum 1), (''title'', JStr ''C''), (''body'', JStr ''x'')]
   \<and> fst (pullChangesTry laterPullApi (snd (pullChanges acceptingApi exampleEngine))) = Returned
   \<and> persistedCursor (persistence
         (snd (pullChanges laterPullApi (snd (pullChanges acceptingApi exampleEngine)))))
       = Some (JNum 20)
   \<and> fst (pullChangesTry failingPullApi (snd (pullChanges acceptingApi exampleEngine)))
       = Threw StorageError
   \<and> persistedCursor (persistence
         (snd (pullChanges failingPullApi (snd (pullChanges acceptingApi exampleEngine)))))
       = Some (JNum 10)
   \<and> persistence (snd (pullChanges emptyPullApi exampleEngine)) = examplePersistence"
proof -
  let ?r1 = "\<lparr>changes = [pulledUpdate], pull_timestamp = 10\<rparr>"
  let ?r2 = "\<lparr>changes = [pulledUpdate], pull_timestamp = 20\<rparr>"
  let ?e1 = "snd (pullChanges acceptingApi exampleEngine)"
  have h0: "\<not> logLineThrows (lastPulledAt exampleEngine)"
    by (simp add: exampleEngine_def logLineThrows_def)
  have h1: "pull acceptingApi (lastPulledAt exampleEngine) = Resolved ?r1"
    by (simp add: acceptingApi_def)
  have h2: "fst (pullChangesTry acceptingApi exampleEngine) = Returned"
    by (simp add: example_defs engine_defs)
  have h3: "pull laterPullApi (Some (pull_timestamp ?r1)) = Resolved ?r2
            \<and> \<not> logLineThrows (Some (pull_timestamp ?r1))"
    by (simp add: laterPullApi_def logLineThrows_def)
  have h4: "fst (pullChangesTry laterPullApi ?e1) = Returned"
    by (simp add: example_defs engine_defs)
  have h5: "fst (pullChangesTry failingPullApi ?e1) = Threw StorageError"
    by (simp add: example_defs engine_defs)
  have h6: "\<forall>r'. pull failingPullApi (lastPulledAt ?e1) = Resolved r' \<longrightarrow>
              (\<forall>op\<in>set (changes r'). collection op \<noteq> metaStore)"
    by (auto simp: failingPullApi_def pulledUpdate_def pulledOrphan_def metaStore_def)
  have h7: "pull emptyPullApi (lastPulledAt exampleEngine)
            = Resolved \<lparr>changes = [], pull_timestamp = 20\<rparr>"
    by (simp add: emptyPullApi_def)
  have p: "persistence exampleEngine = examplePersistence
           \<and> stateManager exampleEngine = exampleState"
    by (simp add: exampleEngine_def)
  note T1 = pull_cursor [of exampleEngine acceptingApi ?r1 laterPullApi ?r2]
  have c1: "persistedCursor (persistence ?e1) = Some (JNum 10)
            \<and> stateManager ?e1 = updateDoc exampleState ''notes'' (IdNum 1)
                  (Some [(''id'', JNum 1), (''title'', JStr ''C'')])"
    using T1 h0 h1 h2 p by (simp add: pulledUpdate_def)
  have c1': "getDoc (stateManager ?e1) ''notes'' (IdNum 1)
             = Some [(''id'', JNum 1), (''title'', JStr ''C''), (''body'', JStr ''x'')]"
    using c1 by (simp add: example_defs engine_defs)
  have c2: "persistedCursor (persistence (snd (pullChanges laterPullApi ?e1))) = Some (JNum 20)"
    using T1 h0 h1 h2 h3 h4 by simp
  have c3: "persistedCursor (persistence (snd (pullChanges failingPullApi ?e1))) = Some (JNum 10)"
    using pull_cursor [of ?e1 failingPullApi ?r1 laterPullApi ?r2] h5 h6 c1 by simp
  have c4: "persistence (snd (pullChanges emptyPullApi exampleEngine)) = examplePersistence"
    using pull_cursor [of exampleEngine emptyPullApi "\<lparr>changes = [], pull_timestamp = 20\<rparr>"
            laterPullApi ?r2] h7 p by simp
  show ?thesis using h1 h2 h4 h5 c1 c1' c2 c3 c4 by simp
qed

section \<open>Stopping the engine\<close>

text \<open>
  C9, as stated, fails: \<open>triggerSync\<close> called on a stopped engine that is online
  drains the queue, makes the push and pull requests and advances the cursor.
\<close>

theorem triggerSync_after_stop_runs:
  "listeners (network (stop exampleEngine)) = [OtherListener 1]
   \<and> getAll (persistence (stop exampleEngine)) = Inr [exampleDeleteOp, exampleUpdateOp]
   \<and> getAll (persistence (snd (triggerSync acceptingApi exampleStrategy (stop exampleEngine))))
       = Inr []
   \<and> apiCalls (snd (triggerSync acceptingApi exampleStrategy (stop exampleEngine)))
       = [PushCall [exampleDeleteOp, exampleUpdateOp], PullCall None]
   \<and> lastPulledAt (stop exampleEngine) = None
   \<and> lastPulledAt (snd (triggerSync acceptingApi exampleStrategy (stop exampleEngine))) = Some 10
   \<and> persistedCursor (persistence (snd (triggerSync acceptingApi exampleStrategy (stop exampleEngine))))
       = Some (JNum 10)"
  by (simp add: example_defs engine_defs)

text \<open>No step of a cycle reads or writes the listeners of the connectivity signal.\<close>

lemma network_update_out:
  "(e\<lparr>network := n\<rparr>)\<lparr>apiCalls := a\<rparr> = (e\<lparr>apiCalls := a\<rparr>)\<lparr>network := n\<rparr>"
  "(e\<lparr>network := n\<rparr>)\<lparr>lastPulledAt := c\<rparr> = (e\<lparr>lastPulledAt := c\<rparr>)\<lparr>network := n\<rparr>"
  "(e\<lparr>network := n\<rparr>)\<lparr>isSyncing := b\<rparr> = (e\<lparr>isSyncing := b\<rparr>)\<lparr>network := n\<rparr>"
  "(e\<lparr>network := n\<rparr>)\<lparr>persistence := p\<rparr> = (e\<lparr>persistence := p\<rparr>)\<lparr>network := n\<rparr>"
  "(e\<lparr>network := n\<rparr>)\<lparr>stateManager := sm\<rparr> = (e\<lparr>stateManager := sm\<rparr>)\<lparr>network := n\<rparr>"
  by simp_all

lemma forEach_network:
  assumes "\<And>x s. body x (s\<lparr>network := n\<rparr>) = (fst (body x s), (snd (body x s))\<lparr>network := n\<rparr>)"
  shows "forEach body xs (s\<lparr>network := n\<rparr>)
         = (fst (forEach body xs s), (snd (forEach body xs s))\<lparr>network := n\<rparr>)"
proof (induction xs arbitrary: s)
  case Nil
  then show ?case by simp
next
  case (Cons x xs)
  obtain out s1 where b: "body x s = (out, s1)" by (cases "body x s")
  have b': "body x (s\<lparr>network := n\<rparr>) = (out, s1\<lparr>network := n\<rparr>)"
    using assms[where x=x and s=s] b by simp
  show ?case
  proof (cases out)
    case Returned
    then show ?thesis using b b' Cons.IH[of s1] by simp
  next
    case (Threw err)
    then show ?thesis using b b' by simp
  qed
qed

lemma applyChange_network:
  "applyChange op (e\<lparr>network := n\<rparr>)
   = (fst (applyChange op e), (snd (applyChange op e))\<lparr>network := n\<rparr>)"
  by (cases "op_type op") (auto simp: applyChange_def Let_def split: sum.splits)

lemma dequeueOp_network:
  "dequeueOp opId (e\<lparr>network := n\<rparr>)
   = (fst (dequeueOp opId e), (snd (dequeueOp opId e))\<lparr>network := n\<rparr>)"
  by (auto simp: dequeueOp_def split: sum.splits)

lemma saveLastPulledAt_network:
  "saveLastPulledAt (e\<lparr>network := n\<rparr>)
   = (fst (saveLastPulledAt e), (snd (saveLastPulledAt e))\<lparr>network := n\<rparr>)"
  by (auto simp: saveLastPulledAt_def split: sum.splits)

lemma handleFailedOperation_network:
  "handleFailedOperation strategy f (e\<lparr>network := n\<rparr>)
   = (fst (handleFailedOperation strategy f e),
      (snd (handleFailedOperation strategy f e))\<lparr>network := n\<rparr>)"
  by (auto simp: handleFailedOperation_def dequeueOp_def Let_def
        split: sum.splits option.splits promise.splits resolution.splits)

lemma pushChangesTry_network:
  "pushChangesTry api strategy operations (e\<lparr>network := n\<rparr>)
   = (fst (pushChangesTry api strategy operations e),
      (snd (pushChangesTry api strategy operations e))\<lparr>network := n\<rparr>)"
  by (simp add: pushChangesTry_def Let_def network_update_out
        forEach_network[where body=dequeueOp, OF dequeueOp_network]
        forEach_network[where body="handleFailedOperation strategy",
          OF handleFailedOperation_network]
        split: promise.splits prod.splits outcome.splits)

lemma pushChanges_network:
  "pushChanges api strategy (e\<lparr>network := n\<rparr>)
   = (fst (pushChanges api strategy e), (snd (pushChanges api strategy e))\<lparr>network := n\<rparr>)"
  by (simp add: pushChanges_def pushChangesTry_network split: sum.splits)

lemma pullChangesTry_network:
  "pullChangesTry api (e\<lparr>network := n\<rparr>)
   = (fst (pullChangesTry api e), (snd (pullChangesTry api e))\<lparr>network := n\<rparr>)"
  by (simp add: pullChangesTry_def Let_def network_update_out saveLastPulledAt_network
        forEach_network[where body=applyChange, OF applyChange_network]
        split: promise.splits prod.splits outcome.splits)

lemma pullChanges_network:
  "pullChanges api (e\<lparr>network := n\<rparr>)
   = (fst (pullChanges api e), (snd (pullChanges api e))\<lparr>network := n\<rparr>)"
  by (simp add: pullChanges_def pullChangesTry_network)

lemma triggerSync_network:
  assumes "isOnline n = isOnline (network e)"
  shows "triggerSync api strategy (e\<lparr>network := n\<rparr>)
         = (fst (triggerSync api strategy e), (snd (triggerSync api strategy e))\<lparr>network := n\<rparr>)"
  using assms
  by (simp add: triggerSync_def Let_def isConnected_def network_update_out
        pushChanges_network pullChanges_network split: prod.splits outcome.splits)

lemma stop_network:
  "stop e = e\<lparr>network := network (stop e)\<rparr> \<and> isOnline (network (stop e)) = isOnline (network e)"
  by (auto simp: stop_def split: option.splits)

lemma updateStatus_no_engine_listener:
  "\<not> list_ex isEngineListener (listeners (network e)) \<Longrightarrow>
   updateStatus api strategy b e = e\<lparr>network := (network e)\<lparr>isOnline := b\<rparr>\<rparr>"
  by (cases "isOnline (network e) = b") (auto simp: updateStatus_def Let_def)

lemma fold_updateStatus_no_engine_listener:
  "\<not> list_ex isEngineListener (listeners (network e)) \<Longrightarrow>
     persistence (fold (updateStatus api strategy) bs e) = persistence e
   \<and> stateManager (fold (updateStatus api strategy) bs e) = stateManager e
   \<and> lastPulledAt (fold (updateStatus api strategy) bs e) = lastPulledAt e
   \<and> apiCalls (fold (updateStatus api strategy) bs e) = apiCalls e
   \<and> isSyncing (fold (updateStatus api strategy) bs e) = isSyncing e"
proof (induction bs arbitrary: e)
  case Nil
  then show ?case by simp
next
  case (Cons b bs)
  let ?e1 = "e\<lparr>network := (network e)\<lparr>isOnline := b\<rparr>\<rparr>"
  have u: "updateStatus api strategy b e = ?e1"
    using Cons.prems by (rule updateStatus_no_engine_listener)
  have n: "\<not> list_ex isEngineListener (listeners (network ?e1))"
    using Cons.prems by simp
  show ?case using Cons.IH[OF n] u by simp
qed

lemma stop_no_engine_listener:
  "unsubscribeNetwork e = Some l \<Longrightarrow>
   (\<forall>l'. EngineListener l' \<in> set (listeners (network e)) \<longrightarrow> l' = l) \<Longrightarrow>
   \<not> list_ex isEngineListener (listeners (network (stop e)))"
  by (auto simp: stop_def list_ex_iff isEngineListener_def split: listener.splits)

lemma stop_frame:
  "persistence (stop e) = persistence e \<and> stateManager (stop e) = stateManager e
   \<and> lastPulledAt (stop e) = lastPulledAt e \<and> apiCalls (stop e) = apiCalls e
   \<and> isSyncing (stop e) = isSyncing e"
  by (auto simp: stop_def split: option.splits)

lemma triggerSync_apiCalls:
  assumes "\<not> isSyncing e" and "isConnected (network e)"
    and "getAll (persistence e) = Inr operations" and "\<not> logLineThrows (lastPulledAt e)"
  shows "apiCalls (snd (triggerSync api strategy e))
         = apiCalls e @ (if operations = [] then [] else [PushCall operations])
             @ [PullCall (lastPulledAt e)]"
proof -
  let ?e1 = "e\<lparr>isSyncing := True\<rparr>"
  obtain out e2 where p: "pushChanges api strategy ?e1 = (out, e2)"
    by (cases "pushChanges api strategy ?e1")
  have f: "out = Returned
           \<and> apiCalls e2 = apiCalls e @ (if operations = [] then [] else [PushCall operations])
           \<and> lastPulledAt e2 = lastPulledAt e"
    using pushChanges_frame[of ?e1 operations api strategy] assms(3) p by simp
  have "apiCalls (snd (pullChanges api e2)) = apiCalls e2 @ [PullCall (lastPulledAt e2)]"
    using pullChangesTry_apiCalls[of api e2] assms(4) f by (simp add: pullChanges_def)
  then show ?thesis
    using assms(1,2) p f by (simp add: triggerSync_def Let_def)
qed

text \<open>
  C9, amended. After \<open>stop\<close> on an engine whose only listener is the one its
  unsubscribe closure removes, no sequence of connectivity changes starts a cycle:
  storage (queue and cursor), state manager, in-memory cursor and the calls made to
  the remote collaborator stay as they were. An explicit \<open>triggerSync\<close> on the
  stopped engine has the outcome and the effects it has on the engine that was not
  stopped; with no cycle in flight, the signal online and a cursor that the log line
  can print, it pushes the queued operations when there are any and makes the pull
  request. \<open>stop\<close> changes the listeners of the signal and nothing else, so it
  leaves \<open>isSyncing\<close> alone, and every step that remains of a cycle
  in flight (the push phase, the pull phase, a dequeue, the handling of a failed
  operation, the application of a pulled change, the write of the cursor) has on the
  stopped engine the outcome and the effects it has without the stop.
\<close>

theorem stop_ignores_connectivity:
  "(unsubscribeNetwork e = Some l
      \<and> (\<forall>l'. EngineListener l' \<in> set (listeners (network e)) \<longrightarrow> l' = l) \<longrightarrow>
        persistence (fold (updateStatus api strategy) statuses (stop e)) = persistence e
      \<and> stateManager (fold (updateStatus api strategy) statuses (stop e)) = stateManager e
      \<and> lastPulledAt (fold (updateStatus api strategy) statuses (stop e)) = lastPulledAt e
      \<and> apiCalls (fold (updateStatus api strategy) statuses (stop e)) = apiCalls e
      \<and> isSyncing (fold (updateStatus api strategy) statuses (stop e)) = isSyncing e)
   \<and> triggerSync api strategy (stop e)
       = (fst (triggerSync api strategy e),
          (snd (triggerSync api strategy e))\<lparr>network := network (stop e)\<rparr>)
   \<and> (\<not> isSyncing e \<and> isConnected (network e) \<and> getAll (persistence e) = Inr operations
      \<and> \<not> logLineThrows (lastPulledAt e) \<longrightarrow>
        apiCalls (snd (triggerSync api strategy (stop e)))
          = apiCalls e @ (if operations = [] then [] else [PushCall operations])
              @ [PullCall (lastPulledAt e)])
   \<and> isSyncing (stop e) = isSyncing e
   \<and> pushChanges api strategy (stop e)
       = (fst (pushChanges api strategy e),
          (snd (pushChanges api strategy e))\<lparr>network := network (stop e)\<rparr>)
   \<and> pullChanges api (stop e)
       = (fst (pullChanges api e), (snd (pullChanges api e))\<lparr>network := network (stop e)\<rparr>)
   \<and> dequeueOp opId (stop e)
       = (fst (dequeueOp opId e), (snd (dequeueOp opId e))\<lparr>network := network (stop e)\<rparr>)
   \<and> handleFailedOperation strategy f (stop e)
       = (fst (handleFailedOperation strategy f e),
          (snd (handleFailedOperation strategy f e))\<lparr>network := network (stop e)\<rparr>)
   \<and> applyChange op (stop e)
       = (fst (applyChange op e), (snd (applyChange op e))\<lparr>network := network (stop e)\<rparr>)
   \<and> saveLastPulledAt (stop e)
       = (fst (saveLastPulledAt e), (snd (saveLastPulledAt e))\<lparr>network := network (stop e)\<rparr>)
   \<and> stop e = e\<lparr>network := (network e)\<lparr>listeners := listeners (network (stop e))\<rparr>\<rparr>"
proof -
  have s: "stop e = e\<lparr>network := network (stop e)\<rparr>"
    and o: "isOnline (network (stop e)) = isOnline (network e)"
    using stop_network[of e] by simp_all
  have c1: "unsubscribeNetwork e = Some l
      \<and> (\<forall>l'. EngineListener l' \<in> set (listeners (network e)) \<longrightarrow> l' = l) \<longrightarrow>
        persistence (fold (updateStatus api strategy) statuses (stop e)) = persistence e
      \<and> stateManager (fold (updateStatus api strategy) statuses (stop e)) = stateManager e
      \<and> lastPulledAt (fold (updateStatus api strategy) statuses (stop e)) = lastPulledAt e
      \<and> apiCalls (fold (updateStatus api strategy) statuses (stop e)) = apiCalls e
      \<and> isSyncing (fold (updateStatus api strategy) statuses (stop e)) = isSyncing e"
  proof
    assume a: "unsubscribeNetwork e = Some l
      \<and> (\<forall>l'. EngineListener l' \<in> set (listeners (network e)) \<longrightarrow> l' = l)"
    then have n: "\<not> list_ex isEngineListener (listeners (network (stop e)))"
      using stop_no_engine_listener[of e l] by blast
    show "persistence (fold (updateStatus api strategy) statuses (stop e)) = persistence e
      \<and> stateManager (fold (updateStatus api strategy) statuses (stop e)) = stateManager e
      \<and> lastPulledAt (fold (updateStatus api strategy) statuses (stop e)) = lastPulledAt e
      \<and> apiCalls (fold (updateStatus api strategy) statuses (stop e)) = apiCalls e
      \<and> isSyncing (fold (updateStatus api strategy) statuses (stop e)) = isSyncing e"
      using fold_updateStatus_no_engine_listener[OF n, of api strategy statuses] stop_frame[of e]
      by simp
  qed
  have c2: "triggerSync api strategy (stop e)
       = (fst (triggerSync api strategy e),
          (snd (triggerSync api strategy e))\<lparr>network := network (stop e)\<rparr>)"
    using triggerSync_network[OF o, where api=api and strategy=strategy] s by simp
  have c3: "\<not> isSyncing e \<and> isConnected (network e) \<and> getAll (persistence e) = Inr operations
      \<and> \<not> logLineThrows (lastPulledAt e) \<longrightarrow>
        apiCalls (snd (triggerSync api strategy (stop e)))
          = apiCalls e @ (if operations = [] then [] else [PushCall operations])
              @ [PullCall (lastPulledAt e)]"
    using c2 triggerSync_apiCalls[of e operations api strategy] by simp
  have c4: "isSyncing (stop e) = isSyncing e" using stop_frame[of e] by simp
  have c5: "pushChanges api strategy (stop e)
       = (fst (pushChanges api strategy e),
          (snd (pushChanges api strategy e))\<lparr>network := network (stop e)\<rparr>)"
    using pushChanges_network[where api=api and strategy=strategy and e=e and n="network (stop e)"] s by simp
  have c6: "pullChanges api (stop e)
       = (fst (pullChanges api e), (snd (pullChanges api e))\<lparr>network := network (stop e)\<rparr>)"
    using pullChanges_network[where api=api and e=e and n="network (stop e)"] s by simp
  have c7: "dequeueOp opId (stop e)
       = (fst (dequeueOp opId e), (snd (dequeueOp opId e))\<lparr>network := network (stop e)\<rparr>)"
    using dequeueOp_network[where opId=opId and e=e and n="network (stop e)"] s by simp
  have c8: "handleFailedOperation strategy f (stop e)
       = (fst (handleFailedOperation strategy f e),
          (snd (handleFailedOperation strategy f e))\<lparr>network := network (stop e)\<rparr>)"
    using handleFailedOperation_network[where strategy=strategy and f=f and e=e and n="network (stop e)"] s by simp
  have c9: "applyChange op (stop e)
       = (fst (applyChange op e), (snd (applyChange op e))\<lparr>network := network (stop e)\<rparr>)"
    using applyChange_network[where op=op and e=e and n="network (stop e)"] s by simp
  have c10: "saveLastPulledAt (stop e)
       = (fst (saveLastPulledAt e), (snd (saveLastPulledAt e))\<lparr>network := network (stop e)\<rparr>)"
    using saveLastPulledAt_network[where e=e and n="network (stop e)"] s by simp
  have c11: "stop e = e\<lparr>network := (network e)\<lparr>listeners := listeners (network (stop e))\<rparr>\<rparr>"
    by (auto simp: stop_def split: option.splits)
  from c1 c2 c3 c4 c5 c6 c7 c8 c9 c10 c11 show ?thesis by (intro conjI) assumption+
qed

theorem stop_ignores_connectivity_witness:
  "unsubscribeNetwork exampleEngine = Some 0
   \<and> listeners (network exampleEngine) = [EngineListener 0, OtherListener 1]
   \<and> apiCalls (fold (updateStatus acceptingApi exampleStrategy) [False, True] (stop exampleEngine)) = []
   \<and> persistence (fold (updateStatus acceptingApi exampleStrategy) [False, True] (stop exampleEngine))
       = examplePersistence
   \<and> apiCalls (fold (updateStatus acceptingApi exampleStrategy) [False, True] exampleEngine)
       = [PushCall [exampleDeleteOp, exampleUpdateOp], PullCall None]
   \<and> apiCalls (snd (triggerSync acceptingApi exampleStrategy (stop exampleEngine)))
       = [PushCall [exampleDeleteOp, exampleUpdateOp], PullCall None]"
proof -
  have h1: "unsubscribeNetwork exampleEngine = Some 0" by (simp add: exampleEngine_def)
  have h2: "\<forall>l'. EngineListener l' \<in> set (listeners (network exampleEngine)) \<longrightarrow> l' = 0"
    by (simp add: exampleEngine_def exampleNetwork_def)
  have h3: "listeners (network exampleEngine) = [EngineListener 0, OtherListener 1]"
    by (simp add: exampleEngine_def exampleNetwork_def)
  have h4: "apiCalls (fold (updateStatus acceptingApi exampleStrategy) [False, True] exampleEngine)
       = [PushCall [exampleDeleteOp, exampleUpdateOp], PullCall None]"
    by (simp add: updateStatus_def isEngineListener_def example_defs engine_defs)
  have h5: "\<not> isSyncing exampleEngine \<and> isConnected (network exampleEngine)
            \<and> getAll (persistence exampleEngine) = Inr [exampleDeleteOp, exampleUpdateOp]
            \<and> \<not> logLineThrows (lastPulledAt exampleEngine)"
    by (simp add: example_defs getAll_def arraySort_def isConnected_def logLineThrows_def)
  have c: "apiCalls exampleEngine = [] \<and> lastPulledAt exampleEngine = None
           \<and> persistence exampleEngine = examplePersistence"
    by (simp add: exampleEngine_def)
  note T = stop_ignores_connectivity [where e=exampleEngine and l=0 and api=acceptingApi
             and strategy=exampleStrategy and statuses="[False, True]"
             and operations="[exampleDeleteOp, exampleUpdateOp]"]
  have w1: "apiCalls (fold (updateStatus acceptingApi exampleStrategy) [False, True] (stop exampleEngine)) = []
     \<and> persistence (fold (updateStatus acceptingApi exampleStrategy) [False, True] (stop exampleEngine))
         = examplePersistence"
    using T [THEN conjunct1] h1 h2 c by simp
  have w2: "apiCalls (snd (triggerSync acceptingApi exampleStrategy (stop exampleEngine)))
       = [PushCall [exampleDeleteOp, exampleUpdateOp], PullCall None]"
    using T [THEN conjunct2, THEN conjunct2, THEN conjunct1] h5 c by simp
  show ?thesis using h1 h3 h4 w1 w2 by simp
qed

end
